theory Spec2Isabelle
  imports Complex_Main
begin

section \<open>The editing driver \<open>sample/edit_fencing.py\<close>\<close>

text \<open>
  The script is a single function \<open>main\<close>. Its steps are modelled one by one, in the
  order of the source, each as a function from the values it reads to the values it
  leaves behind; a step that can raise returns a sum whose left injection is the
  exception. Paths follow \<open>posixpath\<close>.
\<close>

subsection \<open>Exceptions\<close>

datatype error =
    AssertionError
  | KeyError
  | IndexError
  | ValueError
  | RuntimeError
  | TypeError
  | FileNotFoundError
  | FileExistsError
  | NotADirectoryError
  | IsADirectoryError
  | UnboundLocalError

subsection \<open>Strings and paths\<close>

definition starts_with :: "string \<Rightarrow> string \<Rightarrow> bool" where
  "starts_with s p = (take (length p) s = p)"

text \<open>
  \<open>str.replace(old, new)\<close>: every non-overlapping occurrence of \<open>old\<close>, scanning from
  the left. Every call of the script passes a non-empty literal for \<open>old\<close>.
\<close>

function py_replace :: "string \<Rightarrow> string \<Rightarrow> string \<Rightarrow> string" where
  "py_replace old new s =
     (if s = [] \<or> old = [] then s
      else if starts_with s old then new @ py_replace old new (drop (length old) s)
      else hd s # py_replace old new (tl s))"
  by pat_completeness auto
termination
  by (relation "measure (\<lambda>(old, new, s). length s)") auto

declare py_replace.simps [simp del]

text \<open>\<open>os.path.basename\<close>: what follows the last slash.\<close>

definition basename :: "string \<Rightarrow> string" where
  "basename p = rev (takeWhile (\<lambda>c. c \<noteq> CHR ''/'') (rev p))"

text \<open>
  \<open>os.path.dirname\<close>: what precedes the last slash, with that slash; trailing slashes are
  then stripped unless the head consists of slashes only.
\<close>

definition dirname :: "string \<Rightarrow> string" where
  "dirname p =
     (let head = rev (dropWhile (\<lambda>c. c \<noteq> CHR ''/'') (rev p)) in
      if head \<noteq> [] \<and> head \<noteq> replicate (length head) CHR ''/''
      then rev (dropWhile (\<lambda>c. c = CHR ''/'') (rev head))
      else head)"

text \<open>\<open>os.path.join\<close> of two components.\<close>

definition path_join :: "string \<Rightarrow> string \<Rightarrow> string" where
  "path_join a b =
     (if starts_with b ''/'' then b
      else if a = [] \<or> last a = CHR ''/'' then a @ b
      else a @ ''/'' @ b)"

text \<open>Decimal digits of a natural number, and \<open>str\<close> of a Python integer.\<close>

definition digit_char :: "nat \<Rightarrow> char" where
  "digit_char d = char_of (48 + d)"

function str_nat :: "nat \<Rightarrow> string" where
  "str_nat n = (if n < 10 then [digit_char n] else str_nat (n div 10) @ [digit_char (n mod 10)])"
  by pat_completeness auto
termination
  by (relation "measure (\<lambda>n. n)") auto

declare str_nat.simps [simp del]

definition str_int :: "int \<Rightarrow> string" where
  "str_int i = (if i < 0 then CHR ''-'' # str_nat (nat (- i)) else str_nat (nat i))"

text \<open>The format specification \<open>{:02d}\<close>: zero padding on the left to width two.\<close>

definition fmt02 :: "int \<Rightarrow> string" where
  "fmt02 i = (let s = str_int i in
              if length s < 2 then replicate (2 - length s) CHR ''0'' @ s else s)"

subsection \<open>Command-line arguments\<close>

text \<open>
  The fields of \<open>args\<close> that \<open>main\<close> reads. A Python float is kept as the rational
  number it denotes; the one place where floats are multiplied is a parameter of the
  model (see \<open>int_mul\<close> below).
\<close>

record args =
  output_dir :: string
  model_path :: string
  edit_mode :: string
  seed :: int
  text_condition :: string
  num_samples :: int
  batch_size :: int
  num_repetitions :: int
  prefix_end :: rat
  suffix_start :: rat
  guidance_param :: rat
  input_motion_path :: string
  mask_path :: string
  dataset :: string
  unconstrained :: bool

subsection \<open>Lines 38--52: the output path\<close>

definition run_name :: "args \<Rightarrow> string" where
  "run_name a = basename (dirname (model_path a))"

definition niter :: "args \<Rightarrow> string" where
  "niter a = py_replace ''.pt'' [] (py_replace ''model'' [] (basename (model_path a)))"

definition edit_dir_name :: "args \<Rightarrow> string" where
  "edit_dir_name a =
     ''edit_'' @ run_name a @ ''_'' @ niter a @ ''_'' @ edit_mode a @ ''_seed'' @ str_int (seed a)"

definition resolve_out_path :: "args \<Rightarrow> string" where
  "resolve_out_path a =
     (let out_path = output_dir a in
      if out_path = [] then
        (let out_path = path_join (dirname (model_path a)) (edit_dir_name a) in
         if text_condition a \<noteq> [] then
           out_path @ ''_'' @ py_replace ''.'' [] (py_replace '' '' ''_'' (text_condition a))
         else out_path)
      else
        (let out_path = path_join out_path (edit_dir_name a) in
         if text_condition a \<noteq> [] then
           out_path @ ''_'' @ py_replace ''.'' [] (py_replace '' '' ''_'' (text_condition a))
         else out_path))"

text \<open>
  The same path as the specification words it: a base directory chosen by whether
  \<open>output_dir\<close> is empty, joined with the formatted name, and then one suffix rule for
  both cases.
\<close>

definition spec_text_suffix :: "args \<Rightarrow> string" where
  "spec_text_suffix a =
     (if text_condition a = [] then []
      else ''_'' @ py_replace ''.'' [] (py_replace '' '' ''_'' (text_condition a)))"

definition spec_out_path :: "args \<Rightarrow> string" where
  "spec_out_path a =
     path_join (if output_dir a = [] then dirname (model_path a) else output_dir a)
       (''edit_'' @ basename (dirname (model_path a)) @ ''_''
          @ py_replace ''.pt'' [] (py_replace ''model'' [] (basename (model_path a)))
          @ ''_'' @ edit_mode a @ ''_seed'' @ str_int (seed a))
     @ spec_text_suffix a"

subsection \<open>Lines 55--61: the batch size\<close>

definition check_batch :: "args \<Rightarrow> error + args" where
  "check_batch a =
     (if num_samples a \<le> batch_size a then Inr (a\<lparr>batch_size := num_samples a\<rparr>)
      else Inl AssertionError)"

subsection \<open>Tensors\<close>

text \<open>
  A tensor or array of any rank: its shape and its entries by index. Entries at indices
  outside the shape carry no meaning.
\<close>

record 'v tensor =
  shape :: "nat list"
  elem :: "nat list \<Rightarrow> 'v"

text \<open>
  The batch the data loader yields has rank four: samples, joints (the feature vector of
  the motion representation), features and frames.
\<close>

record 'v motion_batch =
  dim_batch :: nat
  dim_joints :: nat
  dim_feats :: nat
  dim_frames :: nat
  value_at :: "nat \<Rightarrow> nat \<Rightarrow> nat \<Rightarrow> nat \<Rightarrow> 'v"

definition as_tensor :: "'v motion_batch \<Rightarrow> 'v tensor" where
  "as_tensor x =
     \<lparr>shape = [dim_batch x, dim_joints x, dim_feats x, dim_frames x],
      elem = (\<lambda>idx. value_at x (idx ! 0) (idx ! 1) (idx ! 2) (idx ! 3))\<rparr>"

text \<open>A boolean tensor of rank four, as nested rows: \<open>m ! i ! j ! f ! t\<close>.\<close>

type_synonym mask = "bool list list list list"

definition ones_like :: "'v motion_batch \<Rightarrow> mask" where
  "ones_like x =
     replicate (dim_batch x) (replicate (dim_joints x) (replicate (dim_feats x)
       (replicate (dim_frames x) True)))"

text \<open>
  The bounds of a slice \<open>start:stop\<close> on a dimension of size \<open>n\<close>: a negative bound
  counts from the end, and both are clipped to the dimension.
\<close>

definition slice_bound :: "nat \<Rightarrow> int \<Rightarrow> nat" where
  "slice_bound n k = nat (if k < 0 then max 0 (k + int n) else min k (int n))"

text \<open>\<open>row[start:stop] = v\<close>.\<close>

definition fill_slice :: "int \<Rightarrow> int \<Rightarrow> 'a \<Rightarrow> 'a list \<Rightarrow> 'a list" where
  "fill_slice start stop v row =
     map (\<lambda>t. if slice_bound (length row) start \<le> t \<and> t < slice_bound (length row) stop
               then v else row ! t)
       [0..<length row]"

text \<open>\<open>list(range(a, b))\<close>.\<close>

definition py_range :: "int \<Rightarrow> int \<Rightarrow> int list" where
  "py_range a b = [a..b - 1]"

subsection \<open>What the sampler is given\<close>

text \<open>
  The entries of \<open>model_kwargs['y']\<close> that the script reads or writes. A key the script
  adds later is absent (\<open>None\<close>) until then.
\<close>

record 'v cond =
  y_text :: "string list"
  y_lengths :: "int list"
  y_inpainted_motion :: "'v motion_batch"
  y_inpainting_mask :: "mask option"
  y_scale :: "rat list option"

text \<open>One call of \<open>diffusion.p_sample_loop\<close>: the shape and the keyword arguments.\<close>

record 'v sample_call =
  out_shape :: "int \<times> int \<times> int \<times> nat"
  clip_denoised :: bool
  model_kwargs :: "'v cond"
  skip_timesteps :: int
  init_image :: "'v tensor option"
  progress :: bool
  dump_steps :: "nat list option"
  noise :: "'v tensor option"
  const_noise :: bool

subsection \<open>What the script imports\<close>

text \<open>
  The functions and values that come from other modules. \<open>int_mul x n\<close> stands for
  \<open>int(x * n)\<close>, a float product truncated to an integer. The sampler draws random
  numbers, so its result may differ from one repetition to the next: it takes the index
  of the repetition too.
\<close>

record 'v env =
  int_mul :: "rat \<Rightarrow> int \<Rightarrow> int"
  HML_LOWER_BODY_MASK :: "bool list"
  np_load :: "string \<Rightarrow> error + int tensor"
  njoints :: int
  nfeats :: int
  data_rep :: string
  p_sample_loop :: "nat \<Rightarrow> 'v sample_call \<Rightarrow> 'v tensor"
  inv_transform :: "'v tensor \<Rightarrow> 'v tensor"
  recover_from_ric :: "'v tensor \<Rightarrow> nat \<Rightarrow> 'v tensor"
  all_file_template :: string

subsection \<open>Lines 86--104: the inpainting mask of the edit mode\<close>

type_synonym gt_frames = "nat \<rightharpoonup> int list"

text \<open>
  The loop of line 95 over \<open>enumerate(lengths)\<close>, from index \<open>i\<close> on. Indexing the mask
  at a sample it does not have raises.
\<close>

fun in_between_loop ::
  "'v env \<Rightarrow> args \<Rightarrow> nat \<Rightarrow> nat \<Rightarrow> int list \<Rightarrow> mask \<times> gt_frames \<Rightarrow> error + mask \<times> gt_frames"
where
  "in_between_loop e a max_frames i [] st = Inr st"
| "in_between_loop e a max_frames i (len # rest) (m, gt) =
     (let start_idx = int_mul e (prefix_end a) len;
          end_idx = int_mul e (suffix_start a) len;
          gt = gt(i \<mapsto> py_range 0 start_idx @ py_range end_idx (int max_frames))
      in if i < length m then
           in_between_loop e a max_frames (Suc i) rest
             (m[i := map (map (fill_slice start_idx end_idx False)) (m ! i)], gt)
         else Inl IndexError)"

definition build_mask ::
  "'v env \<Rightarrow> args \<Rightarrow> 'v motion_batch \<Rightarrow> int list \<Rightarrow> error + mask option \<times> gt_frames"
where
  "build_mask e a input_motions lens =
     (if edit_mode a = ''in_between'' then
        (case in_between_loop e a (dim_frames input_motions) 0 lens
                (ones_like input_motions, Map.empty) of
           Inl err \<Rightarrow> Inl err
         | Inr (m, gt) \<Rightarrow> Inr (Some m, gt))
      else if edit_mode a = ''upper_body'' then
        Inr (Some (replicate (dim_batch input_motions)
                     (map (\<lambda>b. replicate (dim_feats input_motions)
                                 (replicate (dim_frames input_motions) b))
                        (HML_LOWER_BODY_MASK e))),
             Map.empty)
      else Inr (None, Map.empty))"

subsection \<open>Lines 106--114: the mask file\<close>

text \<open>The loaded array as booleans, and the indices of its non-zero entries.\<close>

definition mask_t :: "nat \<Rightarrow> int tensor \<Rightarrow> bool list" where
  "mask_t max_frames mask_np = map (\<lambda>t. elem mask_np [t] \<noteq> 0) [0..<max_frames]"

definition nonzero :: "nat \<Rightarrow> int tensor \<Rightarrow> int list" where
  "nonzero max_frames mask_np =
     map int (filter (\<lambda>t. elem mask_np [t] \<noteq> 0) [0..<max_frames])"

text \<open>
  The loop of line 112. The mask is read from \<open>model_kwargs\<close>, where no edit mode other
  than the two of line 92 and line 100 has put one. The mask of either mode has
  \<open>max_frames\<close> frames, the length that line 109 has checked, so the assignment of line
  113 broadcasts the file's mask to every row of the sample.
\<close>

fun mask_file_loop ::
  "bool list \<Rightarrow> int list \<Rightarrow> nat \<Rightarrow> int list \<Rightarrow> mask option \<times> gt_frames
     \<Rightarrow> error + mask option \<times> gt_frames"
where
  "mask_file_loop mt nz i [] st = Inr st"
| "mask_file_loop mt nz i (len # rest) (None, gt) = Inl KeyError"
| "mask_file_loop mt nz i (len # rest) (Some m, gt) =
     (if i < length m then
        mask_file_loop mt nz (Suc i) rest
          (Some (m[i := map (map (\<lambda>row. mt)) (m ! i)]), gt(i \<mapsto> nz))
      else Inl IndexError)"

definition load_mask ::
  "'v env \<Rightarrow> args \<Rightarrow> nat \<Rightarrow> int list \<Rightarrow> mask option \<times> gt_frames
     \<Rightarrow> error + mask option \<times> gt_frames"
where
  "load_mask e a max_frames lens st =
     (if mask_path a \<noteq> [] then
        (case np_load e (mask_path a) of
           Inl err \<Rightarrow> Inl err
         | Inr mask_np \<Rightarrow>
             if shape mask_np = [max_frames] then
               mask_file_loop (mask_t max_frames mask_np) (nonzero max_frames mask_np) 0 lens st
             else Inl AssertionError)
      else Inr st)"

text \<open>Lines 86--114 together.\<close>

definition inpainting_setup ::
  "'v env \<Rightarrow> args \<Rightarrow> 'v motion_batch \<Rightarrow> int list \<Rightarrow> error + mask option \<times> gt_frames"
where
  "inpainting_setup e a input_motions lens =
     (case build_mask e a input_motions lens of
        Inl err \<Rightarrow> Inl err
      | Inr st \<Rightarrow> load_mask e a (dim_frames input_motions) lens st)"

subsection \<open>Operations on tensors\<close>

text \<open>
  \<open>permute\<close> (and numpy's \<open>transpose\<close>): dimension \<open>k\<close> of the result is dimension
  \<open>dims ! k\<close> of the argument. Both libraries raise unless \<open>dims\<close> names every dimension;
  the script passes the constants \<open>(0, 2, 3, 1)\<close> and \<open>(2, 0, 1)\<close>, which leaves the rank to
  check.
\<close>

definition position :: "nat list \<Rightarrow> nat \<Rightarrow> nat" where
  "position dims d = length (takeWhile (\<lambda>k. k \<noteq> d) dims)"

definition permute :: "nat list \<Rightarrow> 'v tensor \<Rightarrow> 'v tensor" where
  "permute dims t =
     \<lparr>shape = map (\<lambda>d. shape t ! d) dims,
      elem = (\<lambda>idx. elem t (map (\<lambda>d. idx ! position dims d) [0..<length dims]))\<rparr>"

definition torch_permute :: "nat list \<Rightarrow> 'v tensor \<Rightarrow> error + 'v tensor" where
  "torch_permute dims t =
     (if length (shape t) = length dims then Inr (permute dims t) else Inl RuntimeError)"

definition np_transpose :: "nat list \<Rightarrow> 'v tensor \<Rightarrow> error + 'v tensor" where
  "np_transpose dims t =
     (if length (shape t) = length dims then Inr (permute dims t) else Inl ValueError)"

text \<open>
  \<open>t.view(-1, *t.shape[2:])\<close>: the first two dimensions become one. The size \<open>-1\<close> cannot
  be inferred when the remaining dimensions hold no element.
\<close>

definition view_merge :: "'v tensor \<Rightarrow> error + 'v tensor" where
  "view_merge t =
     (case shape t of
        [] \<Rightarrow> Inr \<lparr>shape = [1], elem = (\<lambda>idx. elem t [])\<rparr>
      | [s0] \<Rightarrow> Inr t
      | s0 # s1 # rest \<Rightarrow>
          if prod_list rest = 0 then Inl RuntimeError
          else Inr \<lparr>shape = (s0 * s1) # rest,
                    elem = (\<lambda>idx. case idx of
                               [] \<Rightarrow> elem t []
                             | i # r \<Rightarrow> elem t ((i div s1) # (i mod s1) # r))\<rparr>)"

text \<open>\<open>t[i]\<close> for an index that is not negative.\<close>

definition tensor_row :: "'v tensor \<Rightarrow> nat \<Rightarrow> error + 'v tensor" where
  "tensor_row t i =
     (case shape t of
        [] \<Rightarrow> Inl IndexError
      | s0 # rest \<Rightarrow>
          if i < s0 then Inr \<lparr>shape = rest, elem = (\<lambda>idx. elem t (i # idx))\<rparr>
          else Inl IndexError)"

text \<open>\<open>t[:n]\<close> on a tensor of rank one at least, and on a list.\<close>

definition tensor_prefix :: "int \<Rightarrow> 'v tensor \<Rightarrow> 'v tensor" where
  "tensor_prefix n t =
     (case shape t of
        [] \<Rightarrow> t
      | s0 # rest \<Rightarrow> t\<lparr>shape := slice_bound s0 n # rest\<rparr>)"

definition py_prefix :: "int \<Rightarrow> 'a list \<Rightarrow> 'a list" where
  "py_prefix n xs = take (slice_bound (length xs) n) xs"

text \<open>\<open>xs[i]\<close> on a list: a negative index counts from the end.\<close>

definition py_get :: "'a list \<Rightarrow> int \<Rightarrow> error + 'a" where
  "py_get xs i =
     (if 0 \<le> i \<and> i < int (length xs) then Inr (xs ! nat i)
      else if i < 0 \<and> 0 \<le> i + int (length xs) then Inr (xs ! nat (i + int (length xs)))
      else Inl IndexError)"

text \<open>
  \<open>np.concatenate(ts, axis=0)\<close>: the arrays need one rank, not zero, and equal dimensions
  after the first; there must be one array at least.
\<close>

fun concat_elem :: "'v tensor \<Rightarrow> 'v tensor list \<Rightarrow> nat \<Rightarrow> nat list \<Rightarrow> 'v" where
  "concat_elem t [] i r = elem t (i # r)"
| "concat_elem t (u # us) i r =
     (if i < hd (shape t) then elem t (i # r) else concat_elem u us (i - hd (shape t)) r)"

definition np_concatenate :: "'v tensor list \<Rightarrow> error + 'v tensor" where
  "np_concatenate ts =
     (case ts of
        [] \<Rightarrow> Inl ValueError
      | t # us \<Rightarrow>
          if list_all (\<lambda>u. shape u \<noteq> [] \<and> tl (shape u) = tl (shape t)) ts then
            Inr \<lparr>shape = sum_list (map (\<lambda>u. hd (shape u)) ts) # tl (shape t),
                 elem = (\<lambda>idx. case idx of [] \<Rightarrow> elem t [] | i # r \<Rightarrow> concat_elem t us i r)\<rparr>
          else Inl ValueError)"

subsection \<open>Lines 120--153: the repetitions\<close>

text \<open>
  Lines 145--147, and lines 180--182 with the same \<open>n_joints\<close>: the conversion to joint
  positions. \<open>.cpu()\<close> and \<open>.float()\<close> leave shape and entries as they are.
\<close>

definition to_xyz :: "'v env \<Rightarrow> nat \<Rightarrow> 'v tensor \<Rightarrow> error + 'v tensor" where
  "to_xyz e n_joints sample =
     (case torch_permute [0, 2, 3, 1] sample of
        Inl err \<Rightarrow> Inl err
      | Inr p \<Rightarrow>
          (case view_merge (recover_from_ric e (inv_transform e p) n_joints) of
             Inl err \<Rightarrow> Inl err
           | Inr v \<Rightarrow> torch_permute [0, 2, 3, 1] v))"

text \<open>The variables of \<open>main\<close> that the loop reads and writes, and the calls of the sampler so far.\<close>

record 'v loop_state =
  kwargs :: "'v cond"
  all_motions :: "'v tensor list"
  all_lengths :: "int list list"
  all_text :: "string list"
  n_joints_var :: "nat option"
  calls :: "'v sample_call list"

definition init_loop_state :: "'v cond \<Rightarrow> 'v loop_state" where
  "init_loop_state kw =
     \<lparr>kwargs = kw, all_motions = [], all_lengths = [], all_text = [],
      n_joints_var = None, calls = []\<rparr>"

text \<open>
  One pass of the loop body. \<open>torch.ones\<close> raises on a negative size; the product with
  \<open>guidance_param\<close> leaves that value in every entry.
\<close>

definition sample_once ::
  "'v env \<Rightarrow> args \<Rightarrow> nat \<Rightarrow> nat \<Rightarrow> 'v loop_state \<Rightarrow> error + 'v loop_state"
where
  "sample_once e a max_frames rep_i s =
     (if batch_size a < 0 then Inl RuntimeError
      else
        let kw = (kwargs s)\<lparr>y_scale := Some (replicate (nat (batch_size a)) (guidance_param a))\<rparr>;
            call = \<lparr>out_shape = (batch_size a, njoints e, nfeats e, max_frames),
                    clip_denoised = False,
                    model_kwargs = kw,
                    skip_timesteps = 0,
                    init_image = None,
                    progress = True,
                    dump_steps = None,
                    noise = None,
                    const_noise = False\<rparr>;
            sample = p_sample_loop e rep_i call;
            s = s\<lparr>kwargs := kw, calls := calls s @ [call]\<rparr>
        in if data_rep e = ''hml_vec'' then
             (if length (shape sample) < 2 then Inl IndexError
              else
                let n_joints = (if shape sample ! 1 = 263 then 22 else 21) in
                case to_xyz e n_joints sample of
                  Inl err \<Rightarrow> Inl err
                | Inr sample \<Rightarrow>
                    Inr (s\<lparr>all_text := all_text s @ y_text kw,
                           all_motions := all_motions s @ [sample],
                           all_lengths := all_lengths s @ [y_lengths kw],
                           n_joints_var := Some n_joints\<rparr>))
           else
             Inr (s\<lparr>all_text := all_text s @ y_text kw,
                    all_motions := all_motions s @ [sample],
                    all_lengths := all_lengths s @ [y_lengths kw]\<rparr>))"

fun sampling_loop ::
  "'v env \<Rightarrow> args \<Rightarrow> nat \<Rightarrow> nat list \<Rightarrow> 'v loop_state \<Rightarrow> error + 'v loop_state"
where
  "sampling_loop e a max_frames [] s = Inr s"
| "sampling_loop e a max_frames (rep_i # reps) s =
     (case sample_once e a max_frames rep_i s of
        Inl err \<Rightarrow> Inl err
      | Inr s \<Rightarrow> sampling_loop e a max_frames reps s)"

subsection \<open>The file system\<close>

text \<open>
  What the script writes. The \<open>.npy\<close> file holds the dictionary of line 168, with its
  five keys.
\<close>

record 'v results =
  r_motion :: "'v tensor"
  r_text :: "string list"
  r_lengths :: "int list"
  r_num_samples :: int
  r_num_repetitions :: int

datatype 'v file_content = Npy "'v results" | Text string

text \<open>
  The part of the outside world the script acts on: directories and files by path, and a
  log of the calls of \<open>plot_3d_motion\<close>, \<open>os.system\<close> and \<open>save_multiple_samples\<close>. Paths
  are taken as written: two spellings of one location count as two paths.
\<close>

datatype skeleton = kit_kinematic_chain | t2m_kinematic_chain

record 'v plot_call =
  save_path :: string
  kinematic_tree :: skeleton
  joints :: "'v tensor"
  plot_dataset :: string
  title :: string
  plot_fps :: nat
  gt_frames :: "int list"
  global_coords :: bool

record 'v world =
  dirs :: "string set"
  files :: "string \<rightharpoonup> 'v file_content"
  plots :: "'v plot_call list"
  commands :: "string list"
  grids :: "(string \<times> string \<times> nat \<times> int) list"

definition path_exists :: "'v world \<Rightarrow> string \<Rightarrow> bool" where
  "path_exists w p = (p \<in> dirs w \<or> files w p \<noteq> None)"

text \<open>\<open>inside d p\<close>: the path \<open>p\<close> lies below the directory \<open>d\<close>.\<close>

definition inside :: "string \<Rightarrow> string \<Rightarrow> bool" where
  "inside d p = starts_with p (d @ ''/'')"

text \<open>\<open>shutil.rmtree\<close>: the directory goes, with everything below it.\<close>

definition rmtree :: "'v world \<Rightarrow> string \<Rightarrow> error + 'v world" where
  "rmtree w p =
     (if p \<in> dirs w then
        Inr (w\<lparr>dirs := {d \<in> dirs w. d \<noteq> p \<and> \<not> inside p d},
               files := (\<lambda>q. if inside p q then None else files w q)\<rparr>)
      else if files w p \<noteq> None then Inl NotADirectoryError
      else Inl FileNotFoundError)"

text \<open>
  \<open>os.makedirs\<close>: the directory is created, and the directories above it that are
  missing; it raises when the path exists already or a file is in the way.
\<close>

definition ancestors :: "string \<Rightarrow> string list" where
  "ancestors p = map (\<lambda>k. take k p) (filter (\<lambda>k. p ! k = CHR ''/'') [1..<length p])"

definition makedirs :: "'v world \<Rightarrow> string \<Rightarrow> error + 'v world" where
  "makedirs w p =
     (if p = [] then Inl FileNotFoundError
      else if path_exists w p then Inl FileExistsError
      else if list_ex (\<lambda>d. files w d \<noteq> None) (ancestors p) then Inl NotADirectoryError
      else Inr (w\<lparr>dirs := dirs w \<union> {p} \<union> set (ancestors p)\<rparr>))"

text \<open>
  Opening a file for writing and writing it (\<open>np.save\<close> on a path that ends in \<open>.npy\<close>,
  and \<open>open(path, 'w')\<close> with \<open>write\<close>): the directory of the file has to exist. The
  working directory and the root exist.
\<close>

definition write_file :: "'v world \<Rightarrow> string \<Rightarrow> 'v file_content \<Rightarrow> error + 'v world" where
  "write_file w p c =
     (if p \<in> dirs w then Inl IsADirectoryError
      else if dirname p = [] \<or> dirname p = ''/'' \<or> dirname p \<in> dirs w then
        Inr (w\<lparr>files := (files w)(p \<mapsto> c)\<rparr>)
      else Inl FileNotFoundError)"

subsection \<open>Lines 156--173: saving the results\<close>

text \<open>\<open>'\<newline>'.join(xs)\<close>.\<close>

fun join_lines :: "string list \<Rightarrow> string" where
  "join_lines [] = []"
| "join_lines [x] = x"
| "join_lines (x # y # ys) = x @ [CHR 0x0A] @ join_lines (y # ys)"

text \<open>Lines 156--159: what is kept of the samples.\<close>

definition collect_results :: "args \<Rightarrow> 'v loop_state \<Rightarrow> error + 'v results" where
  "collect_results a s =
     (let total_num_samples = num_samples a * num_repetitions a in
      case np_concatenate (all_motions s) of
        Inl err \<Rightarrow> Inl err
      | Inr m \<Rightarrow>
          if all_lengths s = [] then Inl ValueError
          else
            Inr \<lparr>r_motion = tensor_prefix total_num_samples m,
                 r_text = py_prefix total_num_samples (all_text s),
                 r_lengths = py_prefix total_num_samples (concat (all_lengths s)),
                 r_num_samples = num_samples a,
                 r_num_repetitions = num_repetitions a\<rparr>)"

text \<open>Lines 161--163.\<close>

definition prepare_out_dir :: "string \<Rightarrow> 'v world \<Rightarrow> error + 'v world" where
  "prepare_out_dir out_path w =
     (if path_exists w out_path then
        (case rmtree w out_path of
           Inl err \<Rightarrow> Inl err
         | Inr w \<Rightarrow> makedirs w out_path)
      else makedirs w out_path)"

text \<open>Lines 165--173.\<close>

definition write_results :: "string \<Rightarrow> 'v results \<Rightarrow> 'v world \<Rightarrow> error + 'v world" where
  "write_results out_path res w =
     (let npy_path = path_join out_path ''results.npy'' in
      case write_file w npy_path (Npy res) of
        Inl err \<Rightarrow> Inl err
      | Inr w \<Rightarrow>
          (case write_file w (py_replace ''.npy'' ''.txt'' npy_path)
                  (Text (join_lines (r_text res))) of
             Inl err \<Rightarrow> Inl err
           | Inr w \<Rightarrow>
               write_file w (py_replace ''.npy'' ''_len.txt'' npy_path)
                 (Text (join_lines (map str_int (r_lengths res))))))"

definition save_results ::
  "args \<Rightarrow> string \<Rightarrow> 'v loop_state \<Rightarrow> 'v world \<Rightarrow> error + 'v results \<times> 'v world"
where
  "save_results a out_path s w =
     (case collect_results a s of
        Inl err \<Rightarrow> Inl err
      | Inr res \<Rightarrow>
          (case prepare_out_dir out_path w of
             Inl err \<Rightarrow> Inl err
           | Inr w \<Rightarrow>
               (case write_results out_path res w of
                  Inl err \<Rightarrow> Inl err
                | Inr w \<Rightarrow> Inr (res, w))))"

subsection \<open>Lines 175--229: the visualizations\<close>

text \<open>\<open>t[i]\<close> on an array, for any integer \<open>i\<close>.\<close>

definition tensor_index :: "'v tensor \<Rightarrow> int \<Rightarrow> error + 'v tensor" where
  "tensor_index t i =
     (case shape t of
        [] \<Rightarrow> Inl IndexError
      | s0 # rest \<Rightarrow>
          (let j = (if i < 0 then i + int s0 else i) in
           if 0 \<le> j then tensor_row t (nat j) else Inl IndexError))"

text \<open>
  Lines 179--182. \<open>n_joints\<close> is the variable that line 144 assigns; it has no value when
  the loop has not assigned it.
\<close>

definition convert_input :: "'v env \<Rightarrow> 'v loop_state \<Rightarrow> 'v motion_batch \<Rightarrow> error + 'v tensor" where
  "convert_input e s input_motions =
     (if data_rep e = ''hml_vec'' then
        (case n_joints_var s of
           None \<Rightarrow> Inl UnboundLocalError
         | Some n_joints \<Rightarrow> to_xyz e n_joints (as_tensor input_motions))
      else Inr (as_tensor input_motions))"

text \<open>
  Line 195. Outside the \<open>hml_vec\<close> representation \<open>input_motions\<close> is still a torch tensor,
  whose \<open>transpose\<close> takes two dimensions and not three.
\<close>

definition input_clip :: "'v env \<Rightarrow> 'v tensor \<Rightarrow> nat \<Rightarrow> int \<Rightarrow> error + 'v tensor" where
  "input_clip e input_motions sample_i len =
     (case tensor_row input_motions sample_i of
        Inl err \<Rightarrow> Inl err
      | Inr row \<Rightarrow>
          if data_rep e = ''hml_vec'' then
            (case np_transpose [2, 0, 1] row of
               Inl err \<Rightarrow> Inl err
             | Inr motion \<Rightarrow> Inr (tensor_prefix len motion))
          else Inl TypeError)"

definition fps :: nat where
  "fps = 30"

text \<open>Lines 205--219: one repetition of one sample.\<close>

definition rep_step ::
  "args \<Rightarrow> string \<Rightarrow> 'v results \<Rightarrow> gt_frames \<Rightarrow> skeleton \<Rightarrow> nat \<Rightarrow> nat
     \<Rightarrow> string list \<times> 'v world \<Rightarrow> error + string list \<times> 'v world"
where
  "rep_step a out_path res gt_frames_per_sample skel sample_i rep_i st =
     (case st of (rep_files, w) \<Rightarrow>
      let idx = int rep_i * batch_size a + int sample_i in
      case py_get (r_text res) idx of
        Inl err \<Rightarrow> Inl err
      | Inr caption \<Rightarrow>
          let caption = (if caption = [] then ''Edit ['' @ edit_mode a @ ''] unconditioned''
                         else ''Edit ['' @ edit_mode a @ '']: '' @ caption) in
          case py_get (r_lengths res) idx of
            Inl err \<Rightarrow> Inl err
          | Inr len \<Rightarrow>
              (case tensor_index (r_motion res) idx of
                 Inl err \<Rightarrow> Inl err
               | Inr row \<Rightarrow>
                   (case np_transpose [2, 0, 1] row of
                      Inl err \<Rightarrow> Inl err
                    | Inr motion \<Rightarrow>
                        let motion = tensor_prefix len motion;
                            save_file = ''sample'' @ fmt02 (int sample_i) @ ''_rep''
                                          @ fmt02 (int rep_i) @ ''.mp4'';
                            animation_save_path = path_join out_path save_file;
                            rep_files = rep_files @ [animation_save_path];
                            gt = (case gt_frames_per_sample sample_i of
                                    None \<Rightarrow> [] | Some frames \<Rightarrow> frames)
                        in Inr (rep_files,
                                w\<lparr>plots := plots w @
                                    [\<lparr>save_path = animation_save_path, kinematic_tree = skel,
                                      joints = motion, plot_dataset = dataset a,
                                      title = caption, plot_fps = fps, gt_frames = gt,
                                      global_coords = False\<rparr>]\<rparr>))))"

fun rep_loop ::
  "args \<Rightarrow> string \<Rightarrow> 'v results \<Rightarrow> gt_frames \<Rightarrow> skeleton \<Rightarrow> nat \<Rightarrow> nat list
     \<Rightarrow> string list \<times> 'v world \<Rightarrow> error + string list \<times> 'v world"
where
  "rep_loop a out_path res gt skel sample_i [] st = Inr st"
| "rep_loop a out_path res gt skel sample_i (rep_i # reps) st =
     (case rep_step a out_path res gt skel sample_i rep_i st of
        Inl err \<Rightarrow> Inl err
      | Inr st \<Rightarrow> rep_loop a out_path res gt skel sample_i reps st)"

text \<open>Lines 223--225: the command line of the video encoder.\<close>

definition ffmpeg_rep_cmd :: "args \<Rightarrow> string list \<Rightarrow> string \<Rightarrow> string" where
  "ffmpeg_rep_cmd a rep_files all_rep_save_file =
     (let ffmpeg_rep_files = map (\<lambda>f. '' -i '' @ f @ '' '') rep_files;
          hstack_args = '' -filter_complex hstack=inputs='' @ str_int (num_repetitions a + 1)
      in ''ffmpeg -y -loglevel warning '' @ concat ffmpeg_rep_files
           @ hstack_args @ '' '' @ all_rep_save_file)"

text \<open>Lines 193--227: one sample. The plot of the input motion is a comment in the source.\<close>

definition sample_step ::
  "'v env \<Rightarrow> args \<Rightarrow> string \<Rightarrow> 'v tensor \<Rightarrow> int list \<Rightarrow> 'v results \<Rightarrow> gt_frames \<Rightarrow> skeleton
     \<Rightarrow> nat \<Rightarrow> 'v world \<Rightarrow> error + 'v world"
where
  "sample_step e a out_path input_motions lens res gt skel sample_i w =
     (case py_get lens (int sample_i) of
        Inl err \<Rightarrow> Inl err
      | Inr len \<Rightarrow>
          (case input_clip e input_motions sample_i len of
             Inl err \<Rightarrow> Inl err
           | Inr motion \<Rightarrow>
               let save_file = ''input_motion'' @ fmt02 (int sample_i) @ ''.mp4'';
                   animation_save_path = path_join out_path save_file;
                   rep_files = [animation_save_path]
               in case rep_loop a out_path res gt skel sample_i
                         [0..<nat (num_repetitions a)] (rep_files, w) of
                    Inl err \<Rightarrow> Inl err
                  | Inr (rep_files, w) \<Rightarrow>
                      let all_rep_save_file =
                            path_join out_path (''sample'' @ fmt02 (int sample_i) @ ''.mp4'')
                      in Inr (w\<lparr>commands := commands w @
                                  [ffmpeg_rep_cmd a rep_files all_rep_save_file]\<rparr>)))"

fun sample_loop ::
  "'v env \<Rightarrow> args \<Rightarrow> string \<Rightarrow> 'v tensor \<Rightarrow> int list \<Rightarrow> 'v results \<Rightarrow> gt_frames \<Rightarrow> skeleton
     \<Rightarrow> nat list \<Rightarrow> 'v world \<Rightarrow> error + 'v world"
where
  "sample_loop e a out_path input_motions lens res gt skel [] w = Inr w"
| "sample_loop e a out_path input_motions lens res gt skel (sample_i # rest) w =
     (case sample_step e a out_path input_motions lens res gt skel sample_i w of
        Inl err \<Rightarrow> Inl err
      | Inr w \<Rightarrow> sample_loop e a out_path input_motions lens res gt skel rest w)"

definition visualize ::
  "'v env \<Rightarrow> args \<Rightarrow> string \<Rightarrow> 'v motion_batch \<Rightarrow> gt_frames \<Rightarrow> 'v results \<Rightarrow> 'v loop_state
     \<Rightarrow> 'v world \<Rightarrow> error + 'v world"
where
  "visualize e a out_path input_motions gt res s w =
     (let skel = (if dataset a = ''kit'' then kit_kinematic_chain else t2m_kinematic_chain);
          lens = y_lengths (kwargs s)
      in case convert_input e s input_motions of
           Inl err \<Rightarrow> Inl err
         | Inr input_motions_xyz \<Rightarrow>
             if num_samples a < 0 \<or> num_repetitions a < 0 then Inl ValueError
             else if r_lengths res = [] then Inl ValueError
             else
               (case sample_loop e a out_path input_motions_xyz lens res gt skel
                       [0..<nat (num_samples a)] w of
                  Inl err \<Rightarrow> Inl err
                | Inr w \<Rightarrow>
                    Inr (w\<lparr>grids := grids w @
                             [(out_path, all_file_template e, fps,
                               Max (set (r_lengths res @ [int (dim_frames input_motions)])))]\<rparr>)))"

subsection \<open>The whole of \<open>main\<close>\<close>

text \<open>
  The batch \<open>input_motions\<close> and the lengths \<open>lens\<close> are what the data loader yields for
  the file of \<open>input_motion_path\<close>; loading the data and the model is not part of the
  model. The result is the state of the loop, with the calls of the sampler, and the
  outside world.
\<close>

definition main ::
  "'v env \<Rightarrow> args \<Rightarrow> 'v motion_batch \<Rightarrow> int list \<Rightarrow> 'v world \<Rightarrow> error + 'v loop_state \<times> 'v world"
where
  "main e args input_motions lens w =
     (let out_path = resolve_out_path args in
      case check_batch args of
        Inl err \<Rightarrow> Inl err
      | Inr args \<Rightarrow>
          let texts = replicate (nat (num_samples args)) (text_condition args);
              args = (if text_condition args = [] then args\<lparr>guidance_param := 0\<rparr> else args);
              max_frames = dim_frames input_motions
          in case inpainting_setup e args input_motions lens of
               Inl err \<Rightarrow> Inl err
             | Inr (inpainting_mask, gt_frames_per_sample) \<Rightarrow>
                 let y = \<lparr>y_text = texts, y_lengths = lens, y_inpainted_motion = input_motions,
                          y_inpainting_mask = inpainting_mask, y_scale = None\<rparr>
                 in case sampling_loop e args max_frames [0..<nat (num_repetitions args)]
                           (init_loop_state y) of
                      Inl err \<Rightarrow> Inl err
                    | Inr s \<Rightarrow>
                        (case save_results args out_path s w of
                           Inl err \<Rightarrow> Inl err
                         | Inr (res, w) \<Rightarrow>
                             (case visualize e args out_path input_motions
                                     gt_frames_per_sample res s w of
                                Inl err \<Rightarrow> Inl err
                              | Inr w \<Rightarrow> Inr (s, w))))"

subsection \<open>Notions for the statements\<close>

text \<open>The rows of one sample after the assignments of line 98 and of line 113.\<close>

definition in_between_row :: "'v env \<Rightarrow> args \<Rightarrow> int \<Rightarrow> bool list list list \<Rightarrow> bool list list list" where
  "in_between_row e a len r =
     map (map (fill_slice (int_mul e (prefix_end a) len) (int_mul e (suffix_start a) len) False)) r"

definition file_row :: "bool list \<Rightarrow> bool list list list \<Rightarrow> bool list list list" where
  "file_row mt r = map (map (\<lambda>row. mt)) r"

text \<open>The four dimensions of a mask.\<close>

definition has_dims :: "mask \<Rightarrow> nat \<Rightarrow> nat \<Rightarrow> nat \<Rightarrow> nat \<Rightarrow> bool" where
  "has_dims m b j f t =
     (length m = b \<and> (\<forall>r\<in>set m. length r = j \<and>
        (\<forall>c\<in>set r. length c = f \<and> (\<forall>row\<in>set c. length row = t))))"

text \<open>
  The imported functions keep to their shapes: asked for \<open>max_frames\<close> frames, the
  sampler returns a batch of rank four with that many frames, and on its permuted and
  inverse-transformed sample the recovery from the RIC representation returns the joint
  positions, of shape \<open>[batch, features, frames, n_joints, 3]\<close>.
\<close>

definition well_shaped :: "'v env \<Rightarrow> nat \<Rightarrow> bool" where
  "well_shaped e max_frames =
     (\<forall>rep c n. 0 < n \<and> snd (snd (snd (out_shape c))) = max_frames \<longrightarrow>
        (\<exists>b j f. shape (p_sample_loop e rep c) = [b, j, f, max_frames] \<and>
           shape (recover_from_ric e
                    (inv_transform e (permute [0, 2, 3, 1] (p_sample_loop e rep c))) n)
             = [b, f, max_frames, n, 3]))"

text \<open>The paths of the videos of sample \<open>i\<close>, by the names of lines 196, 212 and 222.\<close>

definition input_video :: "string \<Rightarrow> nat \<Rightarrow> string" where
  "input_video out_path i = path_join out_path (''input_motion'' @ fmt02 (int i) @ ''.mp4'')"

definition rep_video :: "string \<Rightarrow> nat \<Rightarrow> nat \<Rightarrow> string" where
  "rep_video out_path i r =
     path_join out_path (''sample'' @ fmt02 (int i) @ ''_rep'' @ fmt02 (int r) @ ''.mp4'')"

definition stacked_video :: "string \<Rightarrow> nat \<Rightarrow> string" where
  "stacked_video out_path i = path_join out_path (''sample'' @ fmt02 (int i) @ ''.mp4'')"

text \<open>
  The command for sample \<open>i\<close> as the specification words it: the input video first, then
  one video per repetition, stacked into one.
\<close>

definition spec_command :: "string \<Rightarrow> int \<Rightarrow> nat \<Rightarrow> string" where
  "spec_command out_path reps i =
     ''ffmpeg -y -loglevel warning ''
       @ concat (map (\<lambda>f. '' -i '' @ f @ '' '')
                   (input_video out_path i # map (rep_video out_path i) [0..<nat reps]))
       @ '' -filter_complex hstack=inputs='' @ str_int (reps + 1)
       @ '' '' @ stacked_video out_path i"

text \<open>
  \<open>only_at_end old q\<close>: in \<open>q @ old\<close> the string \<open>old\<close> occurs at the end and nowhere
  before.
\<close>

definition only_at_end :: "string \<Rightarrow> string \<Rightarrow> bool" where
  "only_at_end old q = list_all (\<lambda>k. \<not> starts_with (drop k (q @ old)) old) [0..<length q]"

text \<open>
  A world is well formed when every directory above an existing path exists.
\<close>

definition wf_world :: "'v world \<Rightarrow> bool" where
  "wf_world w = (\<forall>p. path_exists w p \<longrightarrow> set (ancestors p) \<subseteq> dirs w)"

subsection \<open>A small run\<close>

text \<open>
  Concrete arguments, imports and input for evaluating the steps: one sample of two joints
  and four frames, a mask file that keeps the first two frames, a product \<open>int_mul\<close> that
  is exact, an inverse transform that adds one to every entry, and a recovery that reads
  feature 0 of a frame and tags the result with the joint and the coordinate.
\<close>

definition demo_args :: args where
  "demo_args =
     \<lparr>output_dir = [], model_path = ''./save/humanml_trans_enc_512/model000200000.pt'',
      edit_mode = ''in_between'', seed = 10, text_condition = ''a person walks. fast'',
      num_samples = 1, batch_size = 64, num_repetitions = 2,
      prefix_end = 1 / 4, suffix_start = 3 / 4, guidance_param = 5 / 2,
      input_motion_path = ''feat.npy'', mask_path = ''mask.npy'',
      dataset = ''humanml'', unconstrained = False\<rparr>"

definition demo_mask_np :: "int tensor" where
  "demo_mask_np = \<lparr>shape = [4], elem = (\<lambda>idx. if idx = [0] \<or> idx = [1] then 1 else 0)\<rparr>"

definition demo_env :: "int env" where
  "demo_env =
     \<lparr>int_mul = (\<lambda>x n. if x * of_int n < 0 then \<lceil>x * of_int n\<rceil> else \<lfloor>x * of_int n\<rfloor>),
      HML_LOWER_BODY_MASK = [True, False],
      np_load = (\<lambda>p. if p = ''mask.npy'' then Inr demo_mask_np else Inl FileNotFoundError),
      njoints = 2, nfeats = 1, data_rep = ''hml_vec'',
      p_sample_loop = (\<lambda>rep c. case out_shape c of (b, j, f, t) \<Rightarrow>
                         \<lparr>shape = [nat b, nat j, nat f, t],
                          elem = (\<lambda>idx. 100 * int rep + 10 * int (idx ! 1) + int (idx ! 3))\<rparr>),
      inv_transform = (\<lambda>t. t\<lparr>elem := (\<lambda>idx. elem t idx + 1)\<rparr>),
      recover_from_ric = (\<lambda>t n.
         \<lparr>shape = butlast (shape t) @ [n, 3],
          elem = (\<lambda>idx. 1000 * elem t [idx ! 0, idx ! 1, idx ! 2, 0]
                         + 10 * int (idx ! 3) + int (idx ! 4))\<rparr>),
      all_file_template = ''samples_{:02d}_to_{:02d}.mp4''\<rparr>"

definition demo_batch :: "int motion_batch" where
  "demo_batch = \<lparr>dim_batch = 1, dim_joints = 2, dim_feats = 1, dim_frames = 4,
                  value_at = (\<lambda>i j f t. int (j + t))\<rparr>"

definition demo_cond :: "int cond" where
  "demo_cond =
     \<lparr>y_text = [''a person walks. fast''], y_lengths = [4], y_inpainted_motion = demo_batch,
      y_inpainting_mask = Some [[[[True, False, False, True]], [[True, False, False, True]]]],
      y_scale = None\<rparr>"

definition demo_args1 :: args where
  "demo_args1 = demo_args\<lparr>batch_size := 1\<rparr>"

definition demo_world :: "int world" where
  "demo_world = \<lparr>dirs = {}, files = Map.empty, plots = [], commands = [], grids = []\<rparr>"

definition demo_sample :: "int tensor" where
  "demo_sample = \<lparr>shape = [1, 2, 1, 4], elem = (\<lambda>idx. 10 * int (idx ! 1) + int (idx ! 3))\<rparr>"



definition npy_args :: args where
  "npy_args = demo_args\<lparr>output_dir := ''out.npy''\<rparr>"

definition npy_world :: "int world" where
  "npy_world =
     \<lparr>dirs = {''out.txt'', ''out_len.txt'',
               ''out.txt/edit_humanml_trans_enc_512_000200000_in_between_seed10_a_person_walks_fast'',
               ''out_len.txt/edit_humanml_trans_enc_512_000200000_in_between_seed10_a_person_walks_fast''},
      files = Map.empty, plots = [], commands = [], grids = []\<rparr>"

section \<open>Properties\<close>

subsection \<open>The output path\<close>

text \<open>
  Claim C6. The output path is the base directory (the directory of the model file when
  \<open>output_dir\<close> is empty, \<open>output_dir\<close> otherwise) joined with
  \<open>edit_{name}_{niter}_{edit_mode}_seed{seed}\<close>, followed, when the text condition is
  not empty, by an underscore and the text condition with spaces turned into underscores
  and periods removed.
\<close>

theorem out_path_as_specified: "resolve_out_path a = spec_out_path a"
  by (simp add: resolve_out_path_def spec_out_path_def spec_text_suffix_def
      edit_dir_name_def run_name_def niter_def Let_def)

theorem out_path_as_specified_witness:
  "spec_out_path demo_args =
     ''./save/humanml_trans_enc_512/edit_humanml_trans_enc_512_000200000_in_between_seed10_a_person_walks_fast'' \<and>
   spec_out_path (demo_args\<lparr>output_dir := ''out'', text_condition := [], seed := - 3\<rparr>) =
     ''out/edit_humanml_trans_enc_512_000200000_in_between_seed-3''"
proof -
  have "resolve_out_path demo_args =
     ''./save/humanml_trans_enc_512/edit_humanml_trans_enc_512_000200000_in_between_seed10_a_person_walks_fast''"
    by code_simp
  moreover have "resolve_out_path (demo_args\<lparr>output_dir := ''out'', text_condition := [], seed := - 3\<rparr>) =
     ''out/edit_humanml_trans_enc_512_000200000_in_between_seed-3''"
    by code_simp
  ultimately show ?thesis
    using out_path_as_specified [of demo_args]
      out_path_as_specified [of "demo_args\<lparr>output_dir := ''out'', text_condition := [], seed := - 3\<rparr>"]
    by simp
qed

subsection \<open>The inpainting mask\<close>

lemma length_fill_slice: "length (fill_slice s e v row) = length row"
  by (simp add: fill_slice_def)

lemma fill_slice_nth:
  "t < length row \<Longrightarrow>
   fill_slice s e v row ! t =
     (if slice_bound (length row) s \<le> t \<and> t < slice_bound (length row) e then v else row ! t)"
  by (simp add: fill_slice_def)

lemma slice_bound_nonneg:
  "0 \<le> k \<Longrightarrow> t < n \<Longrightarrow> (slice_bound n k \<le> t) = (k \<le> int t)"
  "0 \<le> k \<Longrightarrow> t < n \<Longrightarrow> (t < slice_bound n k) = (int t < k)"
  by (auto simp: slice_bound_def min_def)

lemma in_between_loop_rows:
  "i + length lens \<le> length m \<Longrightarrow>
   \<exists>m' gt'. in_between_loop e a T i lens (m, gt) = Inr (m', gt')
     \<and> length m' = length m
     \<and> (\<forall>k<length m. m' ! k =
          (if i \<le> k \<and> k < i + length lens
           then in_between_row e a (lens ! (k - i)) (m ! k)
           else m ! k))"
proof (induction lens arbitrary: i m gt)
  case Nil
  have "\<forall>k<length m. m ! k = (if i \<le> k \<and> k < i + length ([]::int list)
           then in_between_row e a ([] ! (k - i)) (m ! k) else m ! k)"
    by auto
  then show ?case by simp
next
  case (Cons len rest)
  define m1 where "m1 = m[i := in_between_row e a len (m ! i)]"
  define gt1 where "gt1 = gt(i \<mapsto> py_range 0 (int_mul e (prefix_end a) len)
                                 @ py_range (int_mul e (suffix_start a) len) (int T))"
  from Cons.prems have i: "i < length m" by simp
  have len1: "length m1 = length m" by (simp add: m1_def)
  from Cons.prems have "Suc i + length rest \<le> length m1" by (simp add: m1_def)
  from Cons.IH [OF this, of gt1] obtain m' gt' where
    r: "in_between_loop e a T (Suc i) rest (m1, gt1) = Inr (m', gt')"
    and l: "length m' = length m1"
    and rows: "\<forall>k<length m1. m' ! k =
          (if Suc i \<le> k \<and> k < Suc i + length rest
           then in_between_row e a (rest ! (k - Suc i)) (m1 ! k)
           else m1 ! k)"
    by blast
  have step: "in_between_loop e a T i (len # rest) (m, gt) = in_between_loop e a T (Suc i) rest (m1, gt1)"
    using i by (simp add: Let_def m1_def gt1_def in_between_row_def)
  have "\<forall>k<length m. m' ! k =
          (if i \<le> k \<and> k < i + length (len # rest)
           then in_between_row e a ((len # rest) ! (k - i)) (m ! k)
           else m ! k)"
  proof (intro allI impI)
    fix k assume k: "k < length m"
    with rows len1 have rk: "m' ! k =
          (if Suc i \<le> k \<and> k < Suc i + length rest
           then in_between_row e a (rest ! (k - Suc i)) (m1 ! k)
           else m1 ! k)" by simp
    show "m' ! k =
          (if i \<le> k \<and> k < i + length (len # rest)
           then in_between_row e a ((len # rest) ! (k - i)) (m ! k)
           else m ! k)"
    proof (cases "k = i")
      case True
      then show ?thesis using rk i by (simp add: m1_def)
    next
      case False
      have "m1 ! k = m ! k" using False by (simp add: m1_def)
      moreover have "Suc i \<le> k \<Longrightarrow> (len # rest) ! (k - i) = rest ! (k - Suc i)"
        by (simp add: nth_Cons' Suc_diff_le)
      ultimately show ?thesis using rk False by auto
    qed
  qed
  with step r l len1 show ?case by simp
qed

lemma mask_file_loop_rows:
  "i + length lens \<le> length m \<Longrightarrow>
   \<exists>m'. mask_file_loop mt nz i lens (Some m, gt) =
            Inr (Some m', (\<lambda>k. if i \<le> k \<and> k < i + length lens then Some nz else gt k))
     \<and> length m' = length m
     \<and> (\<forall>k<length m. m' ! k =
          (if i \<le> k \<and> k < i + length lens then file_row mt (m ! k) else m ! k))"
proof (induction lens arbitrary: i m gt)
  case Nil
  have "gt = (\<lambda>k. if i \<le> k \<and> k < i + length ([]::int list) then Some nz else gt k)"
    by (rule ext) auto
  then show ?case by auto
next
  case (Cons len rest)
  define m1 where "m1 = m[i := file_row mt (m ! i)]"
  define gt1 where "gt1 = gt(i \<mapsto> nz)"
  from Cons.prems have i: "i < length m" by simp
  have len1: "length m1 = length m" by (simp add: m1_def)
  from Cons.prems have "Suc i + length rest \<le> length m1" by (simp add: m1_def)
  from Cons.IH [OF this, of gt1] obtain m' where
    r: "mask_file_loop mt nz (Suc i) rest (Some m1, gt1) =
          Inr (Some m', (\<lambda>k. if Suc i \<le> k \<and> k < Suc i + length rest then Some nz else gt1 k))"
    and l: "length m' = length m1"
    and rows: "\<forall>k<length m1. m' ! k =
          (if Suc i \<le> k \<and> k < Suc i + length rest then file_row mt (m1 ! k) else m1 ! k)"
    by blast
  have g: "(\<lambda>k. if Suc i \<le> k \<and> k < Suc i + length rest then Some nz else gt1 k)
         = (\<lambda>k. if i \<le> k \<and> k < i + length (len # rest) then Some nz else gt k)"
    by (rule ext) (auto simp: gt1_def)
  have step: "mask_file_loop mt nz i (len # rest) (Some m, gt) =
              mask_file_loop mt nz (Suc i) rest (Some m1, gt1)"
    using i by (simp add: m1_def gt1_def file_row_def)
  have "\<forall>k<length m. m' ! k =
          (if i \<le> k \<and> k < i + length (len # rest) then file_row mt (m ! k) else m ! k)"
  proof (intro allI impI)
    fix k assume k: "k < length m"
    with rows len1 have rk: "m' ! k =
          (if Suc i \<le> k \<and> k < Suc i + length rest then file_row mt (m1 ! k) else m1 ! k)"
      by simp
    show "m' ! k =
          (if i \<le> k \<and> k < i + length (len # rest) then file_row mt (m ! k) else m ! k)"
    proof (cases "k = i")
      case True
      then show ?thesis using rk i by (simp add: m1_def)
    next
      case False
      have "m1 ! k = m ! k" using False by (simp add: m1_def)
      then show ?thesis using rk False by auto
    qed
  qed
  with step r g l len1 show ?case by simp
qed

lemma in_between_loop_overflow:
  "i \<le> length m \<Longrightarrow> length m < i + length lens \<Longrightarrow>
   in_between_loop e a T i lens (m, gt) = Inl IndexError"
  by (induction lens arbitrary: i m gt) (auto simp: Let_def)

lemma in_between_row_replicate:
  "in_between_row e a len (replicate j (replicate f row)) =
   replicate j (replicate f (fill_slice (int_mul e (prefix_end a) len)
                                         (int_mul e (suffix_start a) len) False row))"
  by (simp add: in_between_row_def)

lemma file_row_replicate: "file_row mt (replicate j (replicate f row)) = replicate j (replicate f mt)"
  by (simp add: file_row_def)

lemma file_row_map: "file_row mt (map g hs) = map (\<lambda>h. replicate (length (g h)) mt) hs"
  by (simp add: file_row_def map_replicate_const)

lemma build_mask_in_between:
  assumes "edit_mode a = ''in_between''" and "length lens \<le> dim_batch x"
  shows "\<exists>m gt. build_mask e a x lens = Inr (Some m, gt) \<and> length m = dim_batch x \<and>
           (\<forall>k<dim_batch x. m ! k =
              replicate (dim_joints x) (replicate (dim_feats x)
                (if k < length lens
                 then fill_slice (int_mul e (prefix_end a) (lens ! k))
                        (int_mul e (suffix_start a) (lens ! k)) False (replicate (dim_frames x) True)
                 else replicate (dim_frames x) True)))"
proof -
  have "0 + length lens \<le> length (ones_like x)"
    using assms(2) by (simp add: ones_like_def)
  from in_between_loop_rows [OF this, of e a "dim_frames x" Map.empty]
  obtain m gt where
    r: "in_between_loop e a (dim_frames x) 0 lens (ones_like x, Map.empty) = Inr (m, gt)"
    and l: "length m = length (ones_like x)"
    and rows: "\<forall>k<length (ones_like x). m ! k =
          (if 0 \<le> k \<and> k < 0 + length lens
           then in_between_row e a (lens ! (k - 0)) (ones_like x ! k)
           else ones_like x ! k)"
    by blast
  have b: "build_mask e a x lens = Inr (Some m, gt)"
    using assms(1) r by (simp add: build_mask_def)
  have "\<forall>k<dim_batch x. m ! k =
              replicate (dim_joints x) (replicate (dim_feats x)
                (if k < length lens
                 then fill_slice (int_mul e (prefix_end a) (lens ! k))
                        (int_mul e (suffix_start a) (lens ! k)) False (replicate (dim_frames x) True)
                 else replicate (dim_frames x) True))"
  proof (intro allI impI)
    fix k assume k: "k < dim_batch x"
    then have o: "ones_like x ! k =
        replicate (dim_joints x) (replicate (dim_feats x) (replicate (dim_frames x) True))"
      by (simp add: ones_like_def)
    from k rows have "m ! k = (if k < length lens
           then in_between_row e a (lens ! k) (ones_like x ! k) else ones_like x ! k)"
      by (simp add: ones_like_def)
    then show "m ! k =
              replicate (dim_joints x) (replicate (dim_feats x)
                (if k < length lens
                 then fill_slice (int_mul e (prefix_end a) (lens ! k))
                        (int_mul e (suffix_start a) (lens ! k)) False (replicate (dim_frames x) True)
                 else replicate (dim_frames x) True))"
      by (simp add: o in_between_row_replicate)
  qed
  with b l show ?thesis by (auto simp: ones_like_def)
qed

lemma build_mask_upper_body:
  assumes "edit_mode a = ''upper_body''"
  shows "build_mask e a x lens =
           Inr (Some (replicate (dim_batch x)
                  (map (\<lambda>b. replicate (dim_feats x) (replicate (dim_frames x) b)) (HML_LOWER_BODY_MASK e))),
                Map.empty)"
  using assms by (simp add: build_mask_def)

lemma has_dims_rows:
  assumes "length m = b"
    and "\<forall>k<b. \<exists>row. length row = t \<and> m ! k = replicate j (replicate f row)"
  shows "has_dims m b j f t"
proof -
  have "\<forall>r\<in>set m. length r = j \<and>
        (\<forall>c\<in>set r. length c = f \<and> (\<forall>row\<in>set c. length row = t))"
  proof
    fix r assume "r \<in> set m"
    then obtain k where k: "k < length m" and r: "r = m ! k"
      by (auto simp: in_set_conv_nth)
    with assms obtain row where "length row = t" and "r = replicate j (replicate f row)"
      by auto
    then show "length r = j \<and>
        (\<forall>c\<in>set r. length c = f \<and> (\<forall>row\<in>set c. length row = t))"
      by auto
  qed
  with assms(1) show ?thesis by (simp add: has_dims_def)
qed

lemma has_dims_upper_body:
  "has_dims (replicate b (map (\<lambda>v. replicate f (replicate t v)) hml)) b (length hml) f t"
  by (auto simp: has_dims_def)

lemma slice_bound_index:
  assumes "t < n"
  shows "(slice_bound n k \<le> t) = (if k < 0 then k + int n \<le> int t else k \<le> int t)"
    and "(t < slice_bound n k) = (if k < 0 then int t < k + int n else int t < k)"
  using assms by (auto simp: slice_bound_def min_def max_def)

text \<open>
  Claim C1, as amended. In mode \<open>in_between\<close>, with one length per sample at most, the
  mask has the shape of the input motions and, for every sample \<open>i\<close> with length \<open>L\<close>,
  is false exactly on the frames of the slice from \<open>int(prefix_end * L)\<close> to
  \<open>int(suffix_start * L)\<close>, where a negative bound counts from the end of the frame axis;
  these are the frames \<open>int(prefix_end * L)\<close> up to \<open>int(suffix_start * L) - 1\<close> when
  neither bound is negative. With more lengths than samples the loop of line 95 ends in
  an \<open>IndexError\<close>. In mode \<open>upper_body\<close> the mask is the lower-body mask repeated over
  the samples, the features and the frames of the input motions.
\<close>

theorem inpainting_mask_by_edit_mode:
  "(edit_mode a = ''in_between'' \<and> length lens \<le> dim_batch x \<longrightarrow>
     (\<exists>m gt. build_mask e a x lens = Inr (Some m, gt) \<and>
        has_dims m (dim_batch x) (dim_joints x) (dim_feats x) (dim_frames x) \<and>
        (\<forall>i<dim_batch x. \<forall>j<dim_joints x. \<forall>f<dim_feats x. \<forall>t<dim_frames x.
           m ! i ! j ! f ! t =
             (\<not> (i < length lens \<and>
                 (if int_mul e (prefix_end a) (lens ! i) < 0
                  then int_mul e (prefix_end a) (lens ! i) + int (dim_frames x) \<le> int t
                  else int_mul e (prefix_end a) (lens ! i) \<le> int t) \<and>
                 (if int_mul e (suffix_start a) (lens ! i) < 0
                  then int t < int_mul e (suffix_start a) (lens ! i) + int (dim_frames x)
                  else int t < int_mul e (suffix_start a) (lens ! i)))) \<and>
           (i < length lens \<and> 0 \<le> int_mul e (prefix_end a) (lens ! i) \<and>
            0 \<le> int_mul e (suffix_start a) (lens ! i) \<longrightarrow>
              m ! i ! j ! f ! t =
                (\<not> (int_mul e (prefix_end a) (lens ! i) \<le> int t \<and>
                     int t < int_mul e (suffix_start a) (lens ! i)))))))
   \<and> (edit_mode a = ''in_between'' \<and> dim_batch x < length lens \<longrightarrow>
         build_mask e a x lens = Inl IndexError)
   \<and> (edit_mode a = ''upper_body'' \<longrightarrow>
     (\<exists>m. build_mask e a x lens = Inr (Some m, Map.empty) \<and>
        has_dims m (dim_batch x) (length (HML_LOWER_BODY_MASK e)) (dim_feats x) (dim_frames x) \<and>
        (\<forall>i<dim_batch x. \<forall>j<length (HML_LOWER_BODY_MASK e). \<forall>f<dim_feats x. \<forall>t<dim_frames x.
           m ! i ! j ! f ! t = HML_LOWER_BODY_MASK e ! j)))"
proof (intro conjI impI)
  assume h: "edit_mode a = ''in_between'' \<and> length lens \<le> dim_batch x"
  let ?row = "\<lambda>k. if k < length lens
                 then fill_slice (int_mul e (prefix_end a) (lens ! k))
                        (int_mul e (suffix_start a) (lens ! k)) False (replicate (dim_frames x) True)
                 else replicate (dim_frames x) True"
  from h build_mask_in_between [of a lens x e] obtain m gt where
    b: "build_mask e a x lens = Inr (Some m, gt)" and l: "length m = dim_batch x"
    and rows: "\<forall>k<dim_batch x. m ! k = replicate (dim_joints x) (replicate (dim_feats x) (?row k))"
    by blast
  have lr: "\<And>k. length (?row k) = dim_frames x"
    by (simp add: length_fill_slice)
  have d: "has_dims m (dim_batch x) (dim_joints x) (dim_feats x) (dim_frames x)"
    using l rows lr by (intro has_dims_rows) blast+
  have "\<forall>i<dim_batch x. \<forall>j<dim_joints x. \<forall>f<dim_feats x. \<forall>t<dim_frames x.
           m ! i ! j ! f ! t =
             (\<not> (i < length lens \<and>
                 (if int_mul e (prefix_end a) (lens ! i) < 0
                  then int_mul e (prefix_end a) (lens ! i) + int (dim_frames x) \<le> int t
                  else int_mul e (prefix_end a) (lens ! i) \<le> int t) \<and>
                 (if int_mul e (suffix_start a) (lens ! i) < 0
                  then int t < int_mul e (suffix_start a) (lens ! i) + int (dim_frames x)
                  else int t < int_mul e (suffix_start a) (lens ! i)))) \<and>
           (i < length lens \<and> 0 \<le> int_mul e (prefix_end a) (lens ! i) \<and>
            0 \<le> int_mul e (suffix_start a) (lens ! i) \<longrightarrow>
              m ! i ! j ! f ! t =
                (\<not> (int_mul e (prefix_end a) (lens ! i) \<le> int t \<and>
                     int t < int_mul e (suffix_start a) (lens ! i))))"
  proof (intro allI impI)
    fix i j f t
    assume i: "i < dim_batch x" and j: "j < dim_joints x" and f: "f < dim_feats x"
      and t: "t < dim_frames x"
    from rows i j f have e: "m ! i ! j ! f = ?row i" by simp
    have g: "m ! i ! j ! f ! t =
             (\<not> (i < length lens \<and>
                 (if int_mul e (prefix_end a) (lens ! i) < 0
                  then int_mul e (prefix_end a) (lens ! i) + int (dim_frames x) \<le> int t
                  else int_mul e (prefix_end a) (lens ! i) \<le> int t) \<and>
                 (if int_mul e (suffix_start a) (lens ! i) < 0
                  then int t < int_mul e (suffix_start a) (lens ! i) + int (dim_frames x)
                  else int t < int_mul e (suffix_start a) (lens ! i))))"
    proof (cases "i < length lens")
      case True
      then show ?thesis
        using t e by (simp add: fill_slice_nth slice_bound_index [OF t])
    next
      case False
      then show ?thesis using t e by simp
    qed
    show "m ! i ! j ! f ! t =
             (\<not> (i < length lens \<and>
                 (if int_mul e (prefix_end a) (lens ! i) < 0
                  then int_mul e (prefix_end a) (lens ! i) + int (dim_frames x) \<le> int t
                  else int_mul e (prefix_end a) (lens ! i) \<le> int t) \<and>
                 (if int_mul e (suffix_start a) (lens ! i) < 0
                  then int t < int_mul e (suffix_start a) (lens ! i) + int (dim_frames x)
                  else int t < int_mul e (suffix_start a) (lens ! i)))) \<and>
           (i < length lens \<and> 0 \<le> int_mul e (prefix_end a) (lens ! i) \<and>
            0 \<le> int_mul e (suffix_start a) (lens ! i) \<longrightarrow>
              m ! i ! j ! f ! t =
                (\<not> (int_mul e (prefix_end a) (lens ! i) \<le> int t \<and>
                     int t < int_mul e (suffix_start a) (lens ! i))))"
      using g by auto
  qed
  with b d show "\<exists>m gt. build_mask e a x lens = Inr (Some m, gt) \<and>
        has_dims m (dim_batch x) (dim_joints x) (dim_feats x) (dim_frames x) \<and>
        (\<forall>i<dim_batch x. \<forall>j<dim_joints x. \<forall>f<dim_feats x. \<forall>t<dim_frames x.
           m ! i ! j ! f ! t =
             (\<not> (i < length lens \<and>
                 (if int_mul e (prefix_end a) (lens ! i) < 0
                  then int_mul e (prefix_end a) (lens ! i) + int (dim_frames x) \<le> int t
                  else int_mul e (prefix_end a) (lens ! i) \<le> int t) \<and>
                 (if int_mul e (suffix_start a) (lens ! i) < 0
                  then int t < int_mul e (suffix_start a) (lens ! i) + int (dim_frames x)
                  else int t < int_mul e (suffix_start a) (lens ! i)))) \<and>
           (i < length lens \<and> 0 \<le> int_mul e (prefix_end a) (lens ! i) \<and>
            0 \<le> int_mul e (suffix_start a) (lens ! i) \<longrightarrow>
              m ! i ! j ! f ! t =
                (\<not> (int_mul e (prefix_end a) (lens ! i) \<le> int t \<and>
                     int t < int_mul e (suffix_start a) (lens ! i)))))"
    by blast
next
  assume h: "edit_mode a = ''in_between'' \<and> dim_batch x < length lens"
  then have "length (ones_like x) < 0 + length lens" by (simp add: ones_like_def)
  then have "in_between_loop e a (dim_frames x) 0 lens (ones_like x, Map.empty) = Inl IndexError"
    by (intro in_between_loop_overflow) simp_all
  with h show "build_mask e a x lens = Inl IndexError" by (simp add: build_mask_def)
next
  assume u: "edit_mode a = ''upper_body''"
  let ?m = "replicate (dim_batch x)
              (map (\<lambda>b. replicate (dim_feats x) (replicate (dim_frames x) b)) (HML_LOWER_BODY_MASK e))"
  have "build_mask e a x lens = Inr (Some ?m, Map.empty)"
    using u by (rule build_mask_upper_body)
  moreover have "has_dims ?m (dim_batch x) (length (HML_LOWER_BODY_MASK e)) (dim_feats x) (dim_frames x)"
    by (rule has_dims_upper_body)
  moreover have "\<forall>i<dim_batch x. \<forall>j<length (HML_LOWER_BODY_MASK e). \<forall>f<dim_feats x. \<forall>t<dim_frames x.
           ?m ! i ! j ! f ! t = HML_LOWER_BODY_MASK e ! j"
    by simp
  ultimately show "\<exists>m. build_mask e a x lens = Inr (Some m, Map.empty) \<and>
        has_dims m (dim_batch x) (length (HML_LOWER_BODY_MASK e)) (dim_feats x) (dim_frames x) \<and>
        (\<forall>i<dim_batch x. \<forall>j<length (HML_LOWER_BODY_MASK e). \<forall>f<dim_feats x. \<forall>t<dim_frames x.
           m ! i ! j ! f ! t = HML_LOWER_BODY_MASK e ! j)"
    by blast
qed

lemma demo_idx:
  "int_mul demo_env (prefix_end demo_args) 4 = 1"
  "int_mul demo_env (suffix_start demo_args) 4 = 3"
  "int_mul demo_env (- 1 / 2) 4 = - 2"
  by (simp_all add: demo_env_def demo_args_def)

theorem inpainting_mask_by_edit_mode_witness:
  "edit_mode demo_args = ''in_between'' \<and> length [4::int] \<le> dim_batch demo_batch \<and>
   int_mul demo_env (prefix_end demo_args) 4 = 1 \<and>
   int_mul demo_env (suffix_start demo_args) 4 = 3 \<and>
   (\<exists>m gt. build_mask demo_env demo_args demo_batch [4] = Inr (Some m, gt) \<and>
      has_dims m 1 2 1 4 \<and>
      m ! 0 ! 1 ! 0 ! 0 = True \<and> m ! 0 ! 1 ! 0 ! 1 = False \<and>
      m ! 0 ! 1 ! 0 ! 2 = False \<and> m ! 0 ! 1 ! 0 ! 3 = True)"
proof -
  have h: "edit_mode demo_args = ''in_between'' \<and> length [4::int] \<le> dim_batch demo_batch"
    by (simp add: demo_args_def demo_batch_def)
  with inpainting_mask_by_edit_mode [of demo_args "[4]" demo_batch demo_env]
  obtain m gt where b: "build_mask demo_env demo_args demo_batch [4] = Inr (Some m, gt)"
    and d: "has_dims m (dim_batch demo_batch) (dim_joints demo_batch) (dim_feats demo_batch)
              (dim_frames demo_batch)"
    and p: "\<forall>i<dim_batch demo_batch. \<forall>j<dim_joints demo_batch. \<forall>f<dim_feats demo_batch.
           \<forall>t<dim_frames demo_batch.
           m ! i ! j ! f ! t =
             (\<not> (i < length [4::int] \<and>
                 (if int_mul demo_env (prefix_end demo_args) ([4] ! i) < 0
                  then int_mul demo_env (prefix_end demo_args) ([4] ! i)
                         + int (dim_frames demo_batch) \<le> int t
                  else int_mul demo_env (prefix_end demo_args) ([4] ! i) \<le> int t) \<and>
                 (if int_mul demo_env (suffix_start demo_args) ([4] ! i) < 0
                  then int t < int_mul demo_env (suffix_start demo_args) ([4] ! i)
                         + int (dim_frames demo_batch)
                  else int t < int_mul demo_env (suffix_start demo_args) ([4] ! i)))) \<and>
           (i < length [4::int] \<and> 0 \<le> int_mul demo_env (prefix_end demo_args) ([4] ! i) \<and>
            0 \<le> int_mul demo_env (suffix_start demo_args) ([4] ! i) \<longrightarrow>
              m ! i ! j ! f ! t =
                (\<not> (int_mul demo_env (prefix_end demo_args) ([4] ! i) \<le> int t \<and>
                     int t < int_mul demo_env (suffix_start demo_args) ([4] ! i))))"
    by blast
  have q: "\<And>t. t < 4 \<Longrightarrow> m ! 0 ! 1 ! 0 ! t = (\<not> (1 \<le> int t \<and> int t < 3))"
    using p by (simp add: demo_batch_def demo_idx)
  have "m ! 0 ! 1 ! 0 ! 0 = True \<and> m ! 0 ! 1 ! 0 ! 1 = False \<and>
      m ! 0 ! 1 ! 0 ! 2 = False \<and> m ! 0 ! 1 ! 0 ! 3 = True"
    using q [of 0] q [of 1] q [of 2] q [of 3] by simp
  moreover have "has_dims m 1 2 1 4" using d by (simp add: demo_batch_def)
  ultimately show ?thesis using b h by (auto simp: demo_idx)
qed

text \<open>
  Claim C1 as stated fails at \<open>prefix_end = -0.5\<close> and a length of 4: the bounds are -2
  and 3, the frames 0 and 1 lie between them, and the mask is true there, since the slice
  \<open>-2:3\<close> of four frames holds frame 2 alone.
\<close>

theorem negative_prefix_end_counts_from_end:
  "map_sum id fst (build_mask demo_env (demo_args\<lparr>prefix_end := - 1 / 2\<rparr>) demo_batch [4])
     = Inr (Some [[[[True, True, False, True]], [[True, True, False, True]]]]) \<and>
   int_mul demo_env (prefix_end (demo_args\<lparr>prefix_end := - 1 / 2\<rparr>)) 4 = - 2 \<and>
   int_mul demo_env (suffix_start (demo_args\<lparr>prefix_end := - 1 / 2\<rparr>)) 4 = 3"
  by (simp add: build_mask_def demo_args_def demo_batch_def demo_env_def ones_like_def
      fill_slice_def slice_bound_def Let_def upt_rec numeral_2_eq_2)

lemma in_between_loop_keys:
  "in_between_loop e a T i lens (m, gt) = Inr (m', gt') \<Longrightarrow>
   \<not> (i \<le> k \<and> k < i + length lens) \<Longrightarrow> gt' k = gt k"
proof (induction lens arbitrary: i m gt)
  case Nil
  then show ?case by simp
next
  case (Cons len rest)
  from Cons.prems(1) have i: "i < length m"
    by (auto simp: Let_def split: if_splits)
  define m1 where "m1 = m[i := in_between_row e a len (m ! i)]"
  define gt1 where "gt1 = gt(i \<mapsto> py_range 0 (int_mul e (prefix_end a) len)
                                 @ py_range (int_mul e (suffix_start a) len) (int T))"
  have "in_between_loop e a T (Suc i) rest (m1, gt1) = Inr (m', gt')"
    using Cons.prems(1) i by (simp add: Let_def m1_def gt1_def in_between_row_def)
  moreover have "\<not> (Suc i \<le> k \<and> k < Suc i + length rest)"
    using Cons.prems(2) by auto
  ultimately have "gt' k = gt1 k" by (rule Cons.IH)
  moreover have "k \<noteq> i" using Cons.prems(2) by auto
  ultimately show ?case by (simp add: gt1_def)
qed

lemma build_mask_keys:
  assumes "build_mask e a x lens = Inr (mo, gt)" and "length lens \<le> k"
  shows "gt k = None"
proof (cases "edit_mode a = ''in_between''")
  case True
  with assms(1) obtain m where
    "in_between_loop e a (dim_frames x) 0 lens (ones_like x, Map.empty) = Inr (m, gt)"
    by (auto simp: build_mask_def split: sum.splits)
  from in_between_loop_keys [OF this, of k] assms(2) show ?thesis by simp
next
  case False
  with assms(1) show ?thesis by (auto simp: build_mask_def split: if_splits)
qed

lemma build_mask_never_asserts: "build_mask e a x lens \<noteq> Inl AssertionError"
proof (cases "length lens \<le> dim_batch x")
  case True
  show ?thesis
  proof (cases "edit_mode a = ''in_between''")
    case ib: True
    from build_mask_in_between [OF ib True, of e] show ?thesis by auto
  next
    case False
    then show ?thesis by (simp add: build_mask_def)
  qed
next
  case False
  then have "length (ones_like x) < 0 + length lens" by (simp add: ones_like_def)
  then have "in_between_loop e a (dim_frames x) 0 lens (ones_like x, Map.empty) = Inl IndexError"
    by (intro in_between_loop_overflow) simp_all
  then show ?thesis by (simp add: build_mask_def)
qed

lemma mask_file_loop_never_asserts: "mask_file_loop mt nz i lens st \<noteq> Inl AssertionError"
  by (induction mt nz i lens st rule: mask_file_loop.induct) auto

lemma setup_with_mask_file:
  assumes mp: "mask_path a \<noteq> []" and ld: "np_load e (mask_path a) = Inr mask_np"
    and sh: "shape mask_np = [dim_frames x]"
    and b: "build_mask e a x lens = Inr (Some m0, gt0)" and le: "length lens \<le> length m0"
  shows "\<exists>m. inpainting_setup e a x lens =
           Inr (Some m, (\<lambda>k. if k < length lens then Some (nonzero (dim_frames x) mask_np) else None))
         \<and> length m = length m0
         \<and> (\<forall>k<length m0. m ! k =
              (if k < length lens then file_row (mask_t (dim_frames x) mask_np) (m0 ! k) else m0 ! k))"
proof -
  from le have "0 + length lens \<le> length m0" by simp
  from mask_file_loop_rows [OF this, of "mask_t (dim_frames x) mask_np" "nonzero (dim_frames x) mask_np" gt0]
  obtain m where
    r: "mask_file_loop (mask_t (dim_frames x) mask_np) (nonzero (dim_frames x) mask_np) 0 lens (Some m0, gt0) =
          Inr (Some m, (\<lambda>k. if 0 \<le> k \<and> k < 0 + length lens
                             then Some (nonzero (dim_frames x) mask_np) else gt0 k))"
    and l: "length m = length m0"
    and rows: "\<forall>k<length m0. m ! k =
          (if 0 \<le> k \<and> k < 0 + length lens
           then file_row (mask_t (dim_frames x) mask_np) (m0 ! k) else m0 ! k)"
    by blast
  have g: "(\<lambda>k. if 0 \<le> k \<and> k < 0 + length lens
                 then Some (nonzero (dim_frames x) mask_np) else gt0 k)
         = (\<lambda>k. if k < length lens then Some (nonzero (dim_frames x) mask_np) else None)"
    using build_mask_keys [OF b] by (intro ext) auto
  have "inpainting_setup e a x lens =
           Inr (Some m, (\<lambda>k. if k < length lens then Some (nonzero (dim_frames x) mask_np) else None))"
    using mp ld sh b r g by (simp add: inpainting_setup_def load_mask_def)
  with l rows show ?thesis by auto
qed

lemma setup_in_between_file:
  assumes mp: "mask_path a \<noteq> []" and ld: "np_load e (mask_path a) = Inr mask_np"
    and sh: "shape mask_np = [dim_frames x]"
    and ib: "edit_mode a = ''in_between''" and le: "length lens = dim_batch x"
  shows "inpainting_setup e a x lens =
           Inr (Some (replicate (dim_batch x) (replicate (dim_joints x) (replicate (dim_feats x)
                        (mask_t (dim_frames x) mask_np)))),
                (\<lambda>k. if k < dim_batch x then Some (nonzero (dim_frames x) mask_np) else None))"
proof -
  from le have le': "length lens \<le> dim_batch x" by simp
  from build_mask_in_between [OF ib le', of e] obtain m0 gt0 where
    b: "build_mask e a x lens = Inr (Some m0, gt0)" and l0: "length m0 = dim_batch x"
    and rows0: "\<forall>k<dim_batch x. \<exists>row. m0 ! k = replicate (dim_joints x) (replicate (dim_feats x) row)"
    by blast
  from le l0 have "length lens \<le> length m0" by simp
  from setup_with_mask_file [OF mp ld sh b this] obtain m where
    r: "inpainting_setup e a x lens =
           Inr (Some m, (\<lambda>k. if k < length lens then Some (nonzero (dim_frames x) mask_np) else None))"
    and l: "length m = length m0"
    and rows: "\<forall>k<length m0. m ! k =
              (if k < length lens then file_row (mask_t (dim_frames x) mask_np) (m0 ! k) else m0 ! k)"
    by blast
  have "m = replicate (dim_batch x) (replicate (dim_joints x) (replicate (dim_feats x)
                        (mask_t (dim_frames x) mask_np)))"
  proof (rule nth_equalityI)
    show "length m = length (replicate (dim_batch x) (replicate (dim_joints x) (replicate (dim_feats x)
                        (mask_t (dim_frames x) mask_np))))"
      using l l0 by simp
  next
    fix k assume "k < length m"
    with l l0 have k: "k < dim_batch x" by simp
    with rows0 obtain row where "m0 ! k = replicate (dim_joints x) (replicate (dim_feats x) row)"
      by blast
    with rows k l0 le show "m ! k = replicate (dim_batch x) (replicate (dim_joints x) (replicate (dim_feats x)
                        (mask_t (dim_frames x) mask_np))) ! k"
      by (simp add: file_row_replicate)
  qed
  with r le show ?thesis by simp
qed

lemma file_row_upper_body:
  "file_row mt (map (\<lambda>b. replicate f (replicate t b)) hml) = replicate (length hml) (replicate f mt)"
  by (induction hml) (simp_all add: file_row_def)

lemma setup_upper_body_file:
  assumes mp: "mask_path a \<noteq> []" and ld: "np_load e (mask_path a) = Inr mask_np"
    and sh: "shape mask_np = [dim_frames x]"
    and ub: "edit_mode a = ''upper_body''" and le: "length lens = dim_batch x"
  shows "inpainting_setup e a x lens =
           Inr (Some (replicate (dim_batch x) (replicate (length (HML_LOWER_BODY_MASK e))
                        (replicate (dim_feats x) (mask_t (dim_frames x) mask_np)))),
                (\<lambda>k. if k < dim_batch x then Some (nonzero (dim_frames x) mask_np) else None))"
proof -
  define m0 where "m0 = replicate (dim_batch x)
                  (map (\<lambda>b. replicate (dim_feats x) (replicate (dim_frames x) b)) (HML_LOWER_BODY_MASK e))"
  have b: "build_mask e a x lens = Inr (Some m0, Map.empty)"
    unfolding m0_def using ub by (rule build_mask_upper_body)
  have l0: "length m0 = dim_batch x" by (simp add: m0_def)
  with le have "length lens \<le> length m0" by simp
  from setup_with_mask_file [OF mp ld sh b this] obtain m where
    r: "inpainting_setup e a x lens =
           Inr (Some m, (\<lambda>k. if k < length lens then Some (nonzero (dim_frames x) mask_np) else None))"
    and l: "length m = length m0"
    and rows: "\<forall>k<length m0. m ! k =
              (if k < length lens then file_row (mask_t (dim_frames x) mask_np) (m0 ! k) else m0 ! k)"
    by blast
  have "m = replicate (dim_batch x) (replicate (length (HML_LOWER_BODY_MASK e))
                        (replicate (dim_feats x) (mask_t (dim_frames x) mask_np)))"
  proof (rule nth_equalityI)
    show "length m = length (replicate (dim_batch x) (replicate (length (HML_LOWER_BODY_MASK e))
                        (replicate (dim_feats x) (mask_t (dim_frames x) mask_np))))"
      using l l0 by simp
  next
    fix k assume "k < length m"
    with l l0 have k: "k < dim_batch x" by simp
    have "m0 ! k = map (\<lambda>b. replicate (dim_feats x) (replicate (dim_frames x) b)) (HML_LOWER_BODY_MASK e)"
      using k by (simp add: m0_def)
    with rows k l0 le show "m ! k = replicate (dim_batch x) (replicate (length (HML_LOWER_BODY_MASK e))
                        (replicate (dim_feats x) (mask_t (dim_frames x) mask_np))) ! k"
      by (simp add: file_row_upper_body)
  qed
  with r le show ?thesis by simp
qed

lemma build_mask_total:
  assumes "length lens \<le> dim_batch x"
  shows "\<exists>st. build_mask e a x lens = Inr st"
proof (cases "edit_mode a = ''in_between''")
  case True
  from build_mask_in_between [OF True assms, of e] show ?thesis by blast
next
  case False
  then show ?thesis by (simp add: build_mask_def)
qed

lemma demo_mask_t: "mask_t 4 demo_mask_np = [True, True, False, False]"
  by code_simp

lemma demo_nonzero: "nonzero 4 demo_mask_np = [0, 1]"
  by code_simp

lemma setup_file_entries:
  assumes r: "inpainting_setup e a x lens =
           Inr (Some (replicate (dim_batch x) (replicate jd (replicate (dim_feats x)
                        (mask_t (dim_frames x) mask_np)))),
                (\<lambda>k. if k < dim_batch x then Some (nonzero (dim_frames x) mask_np) else None))"
  shows "\<exists>m gt. inpainting_setup e a x lens = Inr (Some m, gt) \<and> length m = dim_batch x \<and>
           (\<forall>i<dim_batch x. length (m ! i) = jd \<and>
              (\<forall>j<jd. length (m ! i ! j) = dim_feats x \<and>
                 (\<forall>f<dim_feats x. length (m ! i ! j ! f) = dim_frames x \<and>
                    (\<forall>t<dim_frames x. m ! i ! j ! f ! t = (elem mask_np [t] \<noteq> 0))))) \<and>
           (\<forall>i<dim_batch x.
              gt i = Some (map int (filter (\<lambda>t. elem mask_np [t] \<noteq> 0) [0..<dim_frames x])))"
  unfolding r by (simp add: mask_t_def nonzero_def)

text \<open>
  Claim C3. With a mask path that is not empty, a file that loads and one length per
  sample, lines 86--114 end in an \<open>AssertionError\<close> exactly when the shape of the loaded
  array is not \<open>(max_frames,)\<close>. When the shape matches, under either edit mode, they go
  through: every sample of the mask keeps its dimensions (the joints of the edit mode,
  the features and the frames of the input motions), its entry at any joint, feature and
  frame \<open>t\<close> tells whether entry \<open>t\<close> of the file is non-zero, and the ground-truth
  frames of every sample are the indices of the non-zero entries of the file.
\<close>

theorem mask_file_shape_assertion:
  assumes "mask_path a \<noteq> []" and "np_load e (mask_path a) = Inr mask_np"
    and "length lens = dim_batch x"
  shows "(inpainting_setup e a x lens = Inl AssertionError \<longleftrightarrow> shape mask_np \<noteq> [dim_frames x]) \<and>
         (shape mask_np = [dim_frames x] \<and>
            (edit_mode a = ''in_between'' \<or> edit_mode a = ''upper_body'') \<longrightarrow>
            (\<exists>m gt. inpainting_setup e a x lens = Inr (Some m, gt) \<and> length m = dim_batch x \<and>
               (\<forall>i<dim_batch x.
                  length (m ! i) = (if edit_mode a = ''in_between'' then dim_joints x
                                    else length (HML_LOWER_BODY_MASK e)) \<and>
                  (\<forall>j<length (m ! i). length (m ! i ! j) = dim_feats x \<and>
                     (\<forall>f<dim_feats x. length (m ! i ! j ! f) = dim_frames x \<and>
                        (\<forall>t<dim_frames x. m ! i ! j ! f ! t = (elem mask_np [t] \<noteq> 0))))) \<and>
               (\<forall>i<dim_batch x.
                  gt i = Some (map int (filter (\<lambda>t. elem mask_np [t] \<noteq> 0)
                                          [0..<dim_frames x])))))"
proof (intro conjI impI)
  from assms(3) have "length lens \<le> dim_batch x" by simp
  from build_mask_total [OF this, of e a] obtain st where
    b: "build_mask e a x lens = Inr st" by blast
  show "inpainting_setup e a x lens = Inl AssertionError \<longleftrightarrow> shape mask_np \<noteq> [dim_frames x]"
    using assms(1,2) b mask_file_loop_never_asserts
    by (simp add: inpainting_setup_def load_mask_def)
next
  assume h: "shape mask_np = [dim_frames x] \<and>
            (edit_mode a = ''in_between'' \<or> edit_mode a = ''upper_body'')"
  then have sh: "shape mask_np = [dim_frames x]" by simp
  from h consider "edit_mode a = ''in_between''" | "edit_mode a = ''upper_body''" by blast
  then show "\<exists>m gt. inpainting_setup e a x lens = Inr (Some m, gt) \<and> length m = dim_batch x \<and>
               (\<forall>i<dim_batch x.
                  length (m ! i) = (if edit_mode a = ''in_between'' then dim_joints x
                                    else length (HML_LOWER_BODY_MASK e)) \<and>
                  (\<forall>j<length (m ! i). length (m ! i ! j) = dim_feats x \<and>
                     (\<forall>f<dim_feats x. length (m ! i ! j ! f) = dim_frames x \<and>
                        (\<forall>t<dim_frames x. m ! i ! j ! f ! t = (elem mask_np [t] \<noteq> 0))))) \<and>
               (\<forall>i<dim_batch x.
                  gt i = Some (map int (filter (\<lambda>t. elem mask_np [t] \<noteq> 0)
                                          [0..<dim_frames x])))"
  proof cases
    case 1
    from setup_file_entries [OF setup_in_between_file [OF assms(1,2) sh 1 assms(3)]] 1
    show ?thesis by auto
  next
    case 2
    from setup_file_entries [OF setup_upper_body_file [OF assms(1,2) sh 2 assms(3)]] 2
    show ?thesis by auto
  qed
qed

lemma demo_build_mask:
  "map_sum id fst (build_mask demo_env demo_args demo_batch [4])
     = Inr (Some [[[[True, False, False, True]], [[True, False, False, True]]]])"
  by (simp add: build_mask_def demo_args_def demo_batch_def demo_env_def ones_like_def
      fill_slice_def slice_bound_def Let_def upt_rec numeral_2_eq_2)

lemma demo_file_entries:
  "(elem demo_mask_np [1] \<noteq> 0) = True" "(elem demo_mask_np [3] \<noteq> 0) = False"
  "map int (filter (\<lambda>t. elem demo_mask_np [t] \<noteq> 0) [0..<4]) = [0, 1]"
  "map (\<lambda>t. elem demo_mask_np [t] \<noteq> 0) [0..<4] = [True, True, False, False]"
  using demo_nonzero demo_mask_t by (simp_all add: demo_mask_np_def nonzero_def mask_t_def)

theorem mask_file_shape_assertion_witness:
  "mask_path demo_args \<noteq> [] \<and> np_load demo_env (mask_path demo_args) = Inr demo_mask_np \<and>
   length [4::int] = dim_batch demo_batch \<and> shape demo_mask_np = [dim_frames demo_batch] \<and>
   edit_mode demo_args = ''in_between'' \<and>
   map_sum id fst (build_mask demo_env demo_args demo_batch [4])
     = Inr (Some [[[[True, False, False, True]], [[True, False, False, True]]]]) \<and>
   inpainting_setup demo_env demo_args demo_batch [4] \<noteq> Inl AssertionError \<and>
   (\<exists>m gt. inpainting_setup demo_env demo_args demo_batch [4] = Inr (Some m, gt) \<and>
      length m = 1 \<and> length (m ! 0) = 2 \<and> length (m ! 0 ! 1) = 1 \<and>
      length (m ! 0 ! 1 ! 0) = 4 \<and>
      m ! 0 ! 1 ! 0 ! 1 = True \<and> m ! 0 ! 1 ! 0 ! 3 = False \<and> gt 0 = Some [0, 1])"
proof -
  have h1: "mask_path demo_args \<noteq> []" by (simp add: demo_args_def)
  have h2: "np_load demo_env (mask_path demo_args) = Inr demo_mask_np"
    by (simp add: demo_args_def demo_env_def)
  have h3: "length [4::int] = dim_batch demo_batch" by (simp add: demo_batch_def)
  have h4: "shape demo_mask_np = [dim_frames demo_batch]"
    by (simp add: demo_batch_def demo_mask_np_def)
  have h5: "edit_mode demo_args = ''in_between''" by (simp add: demo_args_def)
  note t = mask_file_shape_assertion [OF h1 h2 h3]
  from t h4 have a: "inpainting_setup demo_env demo_args demo_batch [4] \<noteq> Inl AssertionError"
    by simp
  from t h4 h5 obtain m gt where
    r: "inpainting_setup demo_env demo_args demo_batch [4] = Inr (Some m, gt)"
    and l: "length m = dim_batch demo_batch"
    and e: "\<forall>i<dim_batch demo_batch.
                  length (m ! i) = (if edit_mode demo_args = ''in_between'' then dim_joints demo_batch
                                    else length (HML_LOWER_BODY_MASK demo_env)) \<and>
                  (\<forall>j<length (m ! i). length (m ! i ! j) = dim_feats demo_batch \<and>
                     (\<forall>f<dim_feats demo_batch. length (m ! i ! j ! f) = dim_frames demo_batch \<and>
                        (\<forall>t<dim_frames demo_batch.
                           m ! i ! j ! f ! t = (elem demo_mask_np [t] \<noteq> 0))))"
    and g: "\<forall>i<dim_batch demo_batch.
                  gt i = Some (map int (filter (\<lambda>t. elem demo_mask_np [t] \<noteq> 0)
                                          [0..<dim_frames demo_batch]))"
    by blast
  from e h5 have l0: "length (m ! 0) = 2"
    and rest: "\<forall>j<length (m ! 0). length (m ! 0 ! j) = 1 \<and>
                     (\<forall>f<1. length (m ! 0 ! j ! f) = 4 \<and>
                        (\<forall>t<4. m ! 0 ! j ! f ! t = (elem demo_mask_np [t] \<noteq> 0)))"
    by (simp_all add: demo_batch_def)
  from rest l0 have r1: "length (m ! 0 ! 1) = 1 \<and>
                     (\<forall>f<1. length (m ! 0 ! 1 ! f) = 4 \<and>
                        (\<forall>t<4. m ! 0 ! 1 ! f ! t = (elem demo_mask_np [t] \<noteq> 0)))"
    by simp
  then have r2: "length (m ! 0 ! 1 ! 0) = 4 \<and>
                        (\<forall>t<4. m ! 0 ! 1 ! 0 ! t = (elem demo_mask_np [t] \<noteq> 0))"
    by simp
  then have "m ! 0 ! 1 ! 0 ! 1 = True" "m ! 0 ! 1 ! 0 ! 3 = False"
    using demo_file_entries(1,2) by simp_all
  moreover from g have "gt 0 = Some [0, 1]"
    using demo_file_entries(3) by (simp add: demo_batch_def)
  moreover from l have "length m = 1" by (simp add: demo_batch_def)
  ultimately show ?thesis using h1 h2 h3 h4 h5 a r l0 r1 r2 demo_build_mask by blast
qed




subsection \<open>The repetitions\<close>

lemma sample_once_calls:
  assumes "sample_once e a max_frames rep_i s = Inr s'"
  shows "\<exists>c. calls s' = calls s @ [c] \<and>
           out_shape c = (batch_size a, njoints e, nfeats e, max_frames) \<and>
           skip_timesteps c = 0 \<and> init_image c = None \<and> noise c = None \<and>
           \<not> clip_denoised c \<and>
           y_scale (model_kwargs c) = Some (replicate (nat (batch_size a)) (guidance_param a))"
  using assms
  by (auto simp: sample_once_def Let_def split: if_splits sum.splits)

lemma sampling_loop_calls:
  assumes "sampling_loop e a max_frames reps s = Inr s'"
  shows "\<exists>cs. calls s' = calls s @ cs \<and> length cs = length reps \<and>
           (\<forall>c\<in>set cs. out_shape c = (batch_size a, njoints e, nfeats e, max_frames) \<and>
              skip_timesteps c = 0 \<and> init_image c = None \<and> noise c = None \<and>
              \<not> clip_denoised c \<and>
              y_scale (model_kwargs c) = Some (replicate (nat (batch_size a)) (guidance_param a)))"
  using assms
proof (induction reps arbitrary: s)
  case Nil
  then show ?case by simp
next
  case (Cons rep_i reps)
  from Cons.prems obtain s1 where
    1: "sample_once e a max_frames rep_i s = Inr s1"
    and 2: "sampling_loop e a max_frames reps s1 = Inr s'"
    by (auto split: sum.splits)
  from sample_once_calls [OF 1] obtain c where
    c: "calls s1 = calls s @ [c]"
    and pc: "out_shape c = (batch_size a, njoints e, nfeats e, max_frames) \<and>
           skip_timesteps c = 0 \<and> init_image c = None \<and> noise c = None \<and>
           \<not> clip_denoised c \<and>
           y_scale (model_kwargs c) = Some (replicate (nat (batch_size a)) (guidance_param a))"
    by blast
  from Cons.IH [OF 2] obtain cs where
    cs: "calls s' = calls s1 @ cs" and l: "length cs = length reps"
    and pcs: "\<forall>c\<in>set cs. out_shape c = (batch_size a, njoints e, nfeats e, max_frames) \<and>
              skip_timesteps c = 0 \<and> init_image c = None \<and> noise c = None \<and>
              \<not> clip_denoised c \<and>
              y_scale (model_kwargs c) = Some (replicate (nat (batch_size a)) (guidance_param a))"
    by blast
  have "calls s' = calls s @ (c # cs)" using c cs by simp
  moreover have "length (c # cs) = length (rep_i # reps)" using l by simp
  moreover have "\<forall>c\<in>set (c # cs). out_shape c = (batch_size a, njoints e, nfeats e, max_frames) \<and>
              skip_timesteps c = 0 \<and> init_image c = None \<and> noise c = None \<and>
              \<not> clip_denoised c \<and>
              y_scale (model_kwargs c) = Some (replicate (nat (batch_size a)) (guidance_param a))"
    using pc pcs by simp
  ultimately show ?case by blast
qed

text \<open>
  Claim C4. When the loop of line 120 runs to its end, the sampler has been called once
  per repetition, \<open>num_repetitions\<close> times in all, each time for the shape
  \<open>(batch_size, njoints, nfeats, max_frames)\<close> and with \<open>skip_timesteps=0\<close>,
  \<open>init_image=None\<close>, \<open>noise=None\<close> and \<open>clip_denoised=False\<close>.
\<close>

theorem sampler_called_once_per_repetition:
  assumes "sampling_loop e a max_frames [0..<nat (num_repetitions a)] (init_loop_state y) = Inr s"
  shows "length (calls s) = nat (num_repetitions a) \<and>
         (0 \<le> num_repetitions a \<longrightarrow> int (length (calls s)) = num_repetitions a) \<and>
         (\<forall>c\<in>set (calls s).
            out_shape c = (batch_size a, njoints e, nfeats e, max_frames) \<and>
            skip_timesteps c = 0 \<and> init_image c = None \<and> noise c = None \<and>
            \<not> clip_denoised c)"
proof -
  from sampling_loop_calls [OF assms] obtain cs where
    "calls s = calls (init_loop_state y) @ cs"
    and "length cs = length [0..<nat (num_repetitions a)]"
    and "\<forall>c\<in>set cs. out_shape c = (batch_size a, njoints e, nfeats e, max_frames) \<and>
              skip_timesteps c = 0 \<and> init_image c = None \<and> noise c = None \<and>
              \<not> clip_denoised c \<and>
              y_scale (model_kwargs c) = Some (replicate (nat (batch_size a)) (guidance_param a))"
    by blast
  then show ?thesis by (simp add: init_loop_state_def)
qed

lemma demo_sampling:
  "\<exists>s. sampling_loop demo_env demo_args1 4 [0..<nat (num_repetitions demo_args1)]
          (init_loop_state demo_cond) = Inr s"
  by (simp add: demo_args1_def demo_args_def demo_env_def upt_rec sample_once_def Let_def
      to_xyz_def torch_permute_def permute_def view_merge_def init_loop_state_def)

theorem sampler_called_once_per_repetition_witness:
  "\<exists>s. sampling_loop demo_env demo_args1 4 [0..<nat (num_repetitions demo_args1)]
          (init_loop_state demo_cond) = Inr s \<and>
       length (calls s) = 2 \<and> out_shape (calls s ! 0) = (1, 2, 1, 4) \<and>
       out_shape (calls s ! 1) = (1, 2, 1, 4) \<and> skip_timesteps (calls s ! 1) = 0"
proof -
  from demo_sampling obtain s where
    s: "sampling_loop demo_env demo_args1 4 [0..<nat (num_repetitions demo_args1)]
          (init_loop_state demo_cond) = Inr s"
    by blast
  note t = sampler_called_once_per_repetition [OF s]
  from t have l: "length (calls s) = 2"
    by (simp add: demo_args1_def demo_args_def)
  then have "calls s ! 0 \<in> set (calls s)" "calls s ! 1 \<in> set (calls s)" by simp_all
  with t have "out_shape (calls s ! 0) = (1, 2, 1, 4) \<and>
       out_shape (calls s ! 1) = (1, 2, 1, 4) \<and> skip_timesteps (calls s ! 1) = 0"
    by (simp add: demo_args1_def demo_args_def demo_env_def)
  with s l show ?thesis by blast
qed

subsection \<open>The batch size\<close>

lemma resolve_out_path_batch_size:
  "resolve_out_path (a\<lparr>batch_size := n\<rparr>) = resolve_out_path a"
  by (simp add: resolve_out_path_def edit_dir_name_def run_name_def niter_def Let_def)

lemma main_batch_size:
  assumes "num_samples a \<le> batch_size a"
  shows "main e a x lens w = main e (a\<lparr>batch_size := num_samples a\<rparr>) x lens w"
  using assms by (simp add: main_def check_batch_def resolve_out_path_batch_size)

lemma main_sampled:
  assumes "main e a x lens w = Inr (s, w')"
  shows "\<exists>a' y. batch_size a' = num_samples a \<and>
           sampling_loop e a' (dim_frames x) [0..<nat (num_repetitions a)] (init_loop_state y) = Inr s"
proof -
  from assms obtain a1 where c: "check_batch a = Inr a1"
    by (cases "check_batch a") (simp_all add: main_def Let_def)
  then have a1: "a1 = a\<lparr>batch_size := num_samples a\<rparr>"
    by (auto simp: check_batch_def split: if_splits)
  define a2 where "a2 = (if text_condition a1 = [] then a1\<lparr>guidance_param := 0\<rparr> else a1)"
  have b: "batch_size a2 = num_samples a" "num_repetitions a2 = num_repetitions a"
    by (simp_all add: a2_def a1)
  from assms c obtain y where
    "sampling_loop e a2 (dim_frames x) [0..<nat (num_repetitions a2)] (init_loop_state y) = Inr s"
    unfolding main_def Let_def a2_def
    by (auto split: sum.splits prod.splits)
  with b show ?thesis by auto
qed

text \<open>
  Claim C9. The assertion of line 55 fails exactly when \<open>num_samples\<close> exceeds
  \<open>batch_size\<close>, and then nothing is sampled. Otherwise line 61 makes
  \<open>batch_size\<close> equal to \<open>num_samples\<close> for the rest of the run: the run is the run
  that starts with \<open>batch_size = num_samples\<close>, and every call of the sampler asks for
  \<open>num_samples\<close> samples with a scale tensor of that size.
\<close>

theorem batch_size_is_num_samples:
  "(\<not> num_samples a \<le> batch_size a \<longrightarrow> main e a x lens w = Inl AssertionError) \<and>
   (num_samples a \<le> batch_size a \<longrightarrow>
      check_batch a = Inr (a\<lparr>batch_size := num_samples a\<rparr>) \<and>
      main e a x lens w = main e (a\<lparr>batch_size := num_samples a\<rparr>) x lens w \<and>
      (\<forall>s w'. main e a x lens w = Inr (s, w') \<longrightarrow>
         (\<forall>c\<in>set (calls s).
            fst (out_shape c) = num_samples a \<and>
            (\<exists>g. y_scale (model_kwargs c) = Some (replicate (nat (num_samples a)) g)))))"
proof (intro conjI impI allI)
  assume "\<not> num_samples a \<le> batch_size a"
  then show "main e a x lens w = Inl AssertionError"
    by (simp add: main_def check_batch_def)
next
  assume "num_samples a \<le> batch_size a"
  then show "check_batch a = Inr (a\<lparr>batch_size := num_samples a\<rparr>)"
    by (simp add: check_batch_def)
next
  assume "num_samples a \<le> batch_size a"
  then show "main e a x lens w = main e (a\<lparr>batch_size := num_samples a\<rparr>) x lens w"
    by (rule main_batch_size)
next
  fix s w'
  assume "main e a x lens w = Inr (s, w')"
  from main_sampled [OF this] obtain a' y where
    b: "batch_size a' = num_samples a"
    and l: "sampling_loop e a' (dim_frames x) [0..<nat (num_repetitions a)] (init_loop_state y) = Inr s"
    by blast
  from sampling_loop_calls [OF l] b
  show "\<forall>c\<in>set (calls s).
            fst (out_shape c) = num_samples a \<and>
            (\<exists>g. y_scale (model_kwargs c) = Some (replicate (nat (num_samples a)) g))"
    by (auto simp: init_loop_state_def)
qed

lemma demo_main_runs: "isl (main demo_env demo_args demo_batch [4] demo_world) = False"
  by code_simp

lemma demo_main_shapes:
  "(case main demo_env demo_args demo_batch [4] demo_world of
      Inl err \<Rightarrow> []
    | Inr (s, w) \<Rightarrow> map out_shape (calls s)) = [(1, 2, 1, 4), (1, 2, 1, 4)]"
  by code_simp

theorem batch_size_is_num_samples_witness:
  "num_samples demo_args \<le> batch_size demo_args \<and> batch_size demo_args = 64 \<and>
   check_batch demo_args = Inr (demo_args\<lparr>batch_size := 1\<rparr>) \<and>
   (\<exists>s w'. main demo_env demo_args demo_batch [4] demo_world = Inr (s, w') \<and>
      calls s \<noteq> [] \<and> fst (out_shape (hd (calls s))) = 1)"
proof -
  have h: "num_samples demo_args \<le> batch_size demo_args" by (simp add: demo_args_def)
  note t = batch_size_is_num_samples [of demo_args demo_env demo_batch "[4]" demo_world]
  from demo_main_runs obtain s w' where
    m: "main demo_env demo_args demo_batch [4] demo_world = Inr (s, w')"
    by (cases "main demo_env demo_args demo_batch [4] demo_world") auto
  with demo_main_shapes have ne: "calls s \<noteq> []" by auto
  then have "hd (calls s) \<in> set (calls s)" by simp
  with t h m have "fst (out_shape (hd (calls s))) = num_samples demo_args" by blast
  then have "fst (out_shape (hd (calls s))) = 1" by (simp add: demo_args_def)
  moreover from t h have "check_batch demo_args = Inr (demo_args\<lparr>batch_size := 1\<rparr>)"
    by (simp add: demo_args_def)
  moreover have "batch_size demo_args = 64" by (simp add: demo_args_def)
  ultimately show ?thesis using h m ne by blast
qed

subsection \<open>The conversion to joint positions\<close>

lemma position_0231:
  "position [0, 2, 3, 1] 0 = 0" "position [0, 2, 3, 1] 1 = 3"
  "position [0, 2, 3, 1] 2 = 1" "position [0, 2, 3, 1] 3 = 2"
  by (simp_all add: position_def)

lemma upt_4: "[0..<4] = [0, 1, 2, 3]"
  by (simp add: upt_rec)

lemma permute_0231:
  "length (shape t) = 4 \<Longrightarrow>
   torch_permute [0, 2, 3, 1] t =
     Inr \<lparr>shape = [shape t ! 0, shape t ! 2, shape t ! 3, shape t ! 1],
          elem = (\<lambda>idx. elem t [idx ! 0, idx ! 3, idx ! 1, idx ! 2])\<rparr>"
  by (simp add: torch_permute_def permute_def upt_4 position_def numeral_2_eq_2 numeral_3_eq_3)

lemma to_xyz_shape:
  assumes s: "shape sample = [b, j, f, t]"
    and r: "shape (recover_from_ric e (inv_transform e (permute [0, 2, 3, 1] sample)) n)
              = [b, f, t, n, 3]"
    and pos: "0 < t" "0 < n"
  shows "\<exists>xyz. to_xyz e n sample = Inr xyz \<and> shape xyz = [b * f, n, 3, t] \<and>
           (\<forall>i k c u. elem xyz [i, k, c, u] =
              elem (recover_from_ric e (inv_transform e (permute [0, 2, 3, 1] sample)) n)
                [i div f, i mod f, u, k, c])"
proof -
  define rr where "rr = recover_from_ric e (inv_transform e (permute [0, 2, 3, 1] sample)) n"
  have p: "torch_permute [0, 2, 3, 1] sample = Inr (permute [0, 2, 3, 1] sample)"
    using s by (simp add: torch_permute_def)
  define v where "v = \<lparr>shape = [b * f, t, n, 3],
       elem = (\<lambda>idx. case idx of [] \<Rightarrow> elem rr [] | i # r \<Rightarrow> elem rr ((i div f) # (i mod f) # r))\<rparr>"
  have sr: "shape rr = [b, f, t, n, 3]"
    using r unfolding rr_def .
  have vm: "view_merge rr = Inr v"
    using pos by (simp add: view_merge_def sr v_def)
  have "length (shape v) = 4" by (simp add: v_def)
  from permute_0231 [OF this]
  have pv: "torch_permute [0, 2, 3, 1] v =
     Inr \<lparr>shape = [b * f, n, 3, t], elem = (\<lambda>idx. elem v [idx ! 0, idx ! 3, idx ! 1, idx ! 2])\<rparr>"
    by (simp add: v_def)
  have "to_xyz e n sample =
     Inr \<lparr>shape = [b * f, n, 3, t], elem = (\<lambda>idx. elem v [idx ! 0, idx ! 3, idx ! 1, idx ! 2])\<rparr>"
    unfolding to_xyz_def p sum.case rr_def [symmetric] vm pv ..
  then show ?thesis by (simp add: v_def rr_def)
qed

lemma sample_once_hml_vec:
  assumes "data_rep e = ''hml_vec''" and "sample_once e a max_frames rep_i s = Inr s'"
  shows "\<exists>c xyz. calls s' = calls s @ [c] \<and>
           to_xyz e (if shape (p_sample_loop e rep_i c) ! 1 = 263 then 22 else 21)
             (p_sample_loop e rep_i c) = Inr xyz \<and>
           all_motions s' = all_motions s @ [xyz] \<and>
           n_joints_var s' = Some (if shape (p_sample_loop e rep_i c) ! 1 = 263 then 22 else 21)"
  using assms
  by (auto simp: sample_once_def Let_def split: if_splits sum.splits)

lemma permute_0231_literal:
  assumes "shape t = [b, j, f, u]"
  shows "permute [0, 2, 3, 1] t =
           \<lparr>shape = [b, f, u, j], elem = (\<lambda>idx. elem t [idx ! 0, idx ! 3, idx ! 1, idx ! 2])\<rparr>"
proof -
  have "length (shape t) = 4" using assms by simp
  from permute_0231 [OF this] assms show ?thesis
    by (simp add: torch_permute_def)
qed

lemma permute_0231_batch:
  "permute [0, 2, 3, 1] (as_tensor x) =
     \<lparr>shape = [dim_batch x, dim_feats x, dim_frames x, dim_joints x],
      elem = (\<lambda>idx. value_at x (idx ! 0) (idx ! 3) (idx ! 1) (idx ! 2))\<rparr>"
proof -
  have "shape (as_tensor x) = [dim_batch x, dim_joints x, dim_feats x, dim_frames x]"
    by (simp add: as_tensor_def)
  from permute_0231_literal [OF this] show ?thesis
    by (simp add: as_tensor_def)
qed

text \<open>
  Claim C7. Under the representation \<open>hml_vec\<close>, take a pass of the loop whose sample has
  the shape \<open>[batch, joints, features, frames]\<close> with at least one frame, and let
  \<open>n_joints\<close> be 22 when \<open>joints\<close> is 263 and 21 otherwise. When the recovery from the
  RIC representation, applied with \<open>n_joints\<close> to the inverse transform of the sample
  permuted to \<open>[batch, features, frames, joints]\<close>, returns the shape
  \<open>[batch, features, frames, n_joints, 3]\<close>, the pass leaves \<open>n_joints\<close> in the variable of
  that name and appends to \<open>all_motions\<close> the array of shape
  \<open>[batch * features, n_joints, 3, frames]\<close>, which is \<open>[batch, n_joints, 3, frames]\<close> for
  the single feature of \<open>hml_vec\<close>, whose entry at \<open>[i, joint, coordinate, frame]\<close> is the
  entry of the recovery at \<open>[i div features, i mod features, frame, joint, coordinate]\<close>.
  Lines 179--182 convert the input motions in the same way, with the \<open>n_joints\<close> the loop
  has left.
\<close>

theorem hml_vec_conversion:
  assumes "data_rep e = ''hml_vec''"
  shows "(sample_once e a max_frames rep_i s = Inr s' \<and> calls s' = calls s @ [c] \<and>
          shape (p_sample_loop e rep_i c) = [b, j, f, t] \<and> 0 < t \<and>
          shape (recover_from_ric e
                   (inv_transform e
                      \<lparr>shape = [b, f, t, j],
                       elem = (\<lambda>idx. elem (p_sample_loop e rep_i c)
                                        [idx ! 0, idx ! 3, idx ! 1, idx ! 2])\<rparr>)
                   (if j = 263 then 22 else 21))
            = [b, f, t, if j = 263 then 22 else 21, 3] \<longrightarrow>
          n_joints_var s' = Some (if j = 263 then 22 else 21) \<and>
          (\<exists>xyz. all_motions s' = all_motions s @ [xyz] \<and>
             shape xyz = [b * f, if j = 263 then 22 else 21, 3, t] \<and>
             (f = 1 \<longrightarrow> shape xyz = [b, if j = 263 then 22 else 21, 3, t]) \<and>
             (\<forall>i k d u. elem xyz [i, k, d, u] =
                elem (recover_from_ric e
                        (inv_transform e
                           \<lparr>shape = [b, f, t, j],
                            elem = (\<lambda>idx. elem (p_sample_loop e rep_i c)
                                             [idx ! 0, idx ! 3, idx ! 1, idx ! 2])\<rparr>)
                        (if j = 263 then 22 else 21))
                  [i div f, i mod f, u, k, d]))) \<and>
         (n_joints_var s = Some n \<and> 0 < n \<and> 0 < dim_frames x \<and>
          shape (recover_from_ric e
                   (inv_transform e
                      \<lparr>shape = [dim_batch x, dim_feats x, dim_frames x, dim_joints x],
                       elem = (\<lambda>idx. value_at x (idx ! 0) (idx ! 3) (idx ! 1) (idx ! 2))\<rparr>)
                   n)
            = [dim_batch x, dim_feats x, dim_frames x, n, 3] \<longrightarrow>
          (\<exists>xyz. convert_input e s x = Inr xyz \<and>
             shape xyz = [dim_batch x * dim_feats x, n, 3, dim_frames x] \<and>
             (\<forall>i k d u. elem xyz [i, k, d, u] =
                elem (recover_from_ric e
                        (inv_transform e
                           \<lparr>shape = [dim_batch x, dim_feats x, dim_frames x, dim_joints x],
                            elem = (\<lambda>idx. value_at x (idx ! 0) (idx ! 3) (idx ! 1) (idx ! 2))\<rparr>)
                        n)
                  [i div dim_feats x, i mod dim_feats x, u, k, d])))"
proof (intro conjI impI)
  define sample where "sample = p_sample_loop e rep_i c"
  define nj :: nat where "nj = (if j = 263 then 22 else 21)"
  assume h: "sample_once e a max_frames rep_i s = Inr s' \<and> calls s' = calls s @ [c] \<and>
          shape (p_sample_loop e rep_i c) = [b, j, f, t] \<and> 0 < t \<and>
          shape (recover_from_ric e
                   (inv_transform e
                      \<lparr>shape = [b, f, t, j],
                       elem = (\<lambda>idx. elem (p_sample_loop e rep_i c)
                                        [idx ! 0, idx ! 3, idx ! 1, idx ! 2])\<rparr>)
                   (if j = 263 then 22 else 21))
            = [b, f, t, if j = 263 then 22 else 21, 3]"
  then have so: "sample_once e a max_frames rep_i s = Inr s'"
    and cs: "calls s' = calls s @ [c]"
    and sh: "shape sample = [b, j, f, t]" and pos: "0 < t"
    by (simp_all add: sample_def)
  have pl: "permute [0, 2, 3, 1] sample =
      \<lparr>shape = [b, f, t, j], elem = (\<lambda>idx. elem sample [idx ! 0, idx ! 3, idx ! 1, idx ! 2])\<rparr>"
    using sh by (rule permute_0231_literal)
  from h have rr: "shape (recover_from_ric e (inv_transform e (permute [0, 2, 3, 1] sample)) nj)
      = [b, f, t, nj, 3]"
    unfolding pl by (simp add: sample_def nj_def)
  have npos: "0 < nj" by (simp add: nj_def)
  from sample_once_hml_vec [OF assms so] obtain c0 xyz where
    c0: "calls s' = calls s @ [c0]"
    and x: "to_xyz e (if shape (p_sample_loop e rep_i c0) ! 1 = 263 then 22 else 21)
             (p_sample_loop e rep_i c0) = Inr xyz"
    and am: "all_motions s' = all_motions s @ [xyz]"
    and nv: "n_joints_var s' = Some (if shape (p_sample_loop e rep_i c0) ! 1 = 263 then 22 else 21)"
    by blast
  from c0 cs have "c0 = c" by simp
  with x nv sh have x': "to_xyz e nj sample = Inr xyz" and nv': "n_joints_var s' = Some nj"
    by (simp_all add: sample_def nj_def)
  from to_xyz_shape [OF sh rr pos npos] x' have
    sx: "shape xyz = [b * f, nj, 3, t]"
    and ex: "\<forall>i k d u. elem xyz [i, k, d, u] =
              elem (recover_from_ric e (inv_transform e (permute [0, 2, 3, 1] sample)) nj)
                [i div f, i mod f, u, k, d]"
    by auto
  show "n_joints_var s' = Some (if j = 263 then 22 else 21)"
    using nv' by (simp add: nj_def)
  show "\<exists>xyz. all_motions s' = all_motions s @ [xyz] \<and>
             shape xyz = [b * f, if j = 263 then 22 else 21, 3, t] \<and>
             (f = 1 \<longrightarrow> shape xyz = [b, if j = 263 then 22 else 21, 3, t]) \<and>
             (\<forall>i k d u. elem xyz [i, k, d, u] =
                elem (recover_from_ric e
                        (inv_transform e
                           \<lparr>shape = [b, f, t, j],
                            elem = (\<lambda>idx. elem (p_sample_loop e rep_i c)
                                             [idx ! 0, idx ! 3, idx ! 1, idx ! 2])\<rparr>)
                        (if j = 263 then 22 else 21))
                  [i div f, i mod f, u, k, d])"
    using am sx ex [unfolded pl] unfolding nj_def sample_def by auto
next
  assume h: "n_joints_var s = Some n \<and> 0 < n \<and> 0 < dim_frames x \<and>
          shape (recover_from_ric e
                   (inv_transform e
                      \<lparr>shape = [dim_batch x, dim_feats x, dim_frames x, dim_joints x],
                       elem = (\<lambda>idx. value_at x (idx ! 0) (idx ! 3) (idx ! 1) (idx ! 2))\<rparr>)
                   n)
            = [dim_batch x, dim_feats x, dim_frames x, n, 3]"
  have sh: "shape (as_tensor x) = [dim_batch x, dim_joints x, dim_feats x, dim_frames x]"
    by (simp add: as_tensor_def)
  from h have rr: "shape (recover_from_ric e (inv_transform e (permute [0, 2, 3, 1] (as_tensor x))) n)
      = [dim_batch x, dim_feats x, dim_frames x, n, 3]"
    unfolding permute_0231_batch by simp
  from h have ci: "convert_input e s x = to_xyz e n (as_tensor x)"
    using assms by (simp add: convert_input_def)
  from h have pos: "0 < dim_frames x" and npos: "0 < n" by simp_all
  from to_xyz_shape [OF sh rr pos npos, unfolded permute_0231_batch]
  show "\<exists>xyz. convert_input e s x = Inr xyz \<and>
             shape xyz = [dim_batch x * dim_feats x, n, 3, dim_frames x] \<and>
             (\<forall>i k d u. elem xyz [i, k, d, u] =
                elem (recover_from_ric e
                        (inv_transform e
                           \<lparr>shape = [dim_batch x, dim_feats x, dim_frames x, dim_joints x],
                            elem = (\<lambda>idx. value_at x (idx ! 0) (idx ! 3) (idx ! 1) (idx ! 2))\<rparr>)
                        n)
                  [i div dim_feats x, i mod dim_feats x, u, k, d])"
    unfolding ci by auto
qed

lemma demo_sample_once:
  "\<exists>s'. sample_once demo_env demo_args1 4 0 (init_loop_state demo_cond) = Inr s'"
  by (simp add: demo_args1_def demo_args_def demo_env_def sample_once_def Let_def
      to_xyz_def torch_permute_def permute_def view_merge_def init_loop_state_def)

lemma demo_recover_shape:
  "shape (recover_from_ric demo_env (inv_transform demo_env \<lparr>shape = [1, 1, 4, 2], elem = g\<rparr>) 21)
     = [1, 1, 4, 21, 3]"
  by (simp add: demo_env_def)

lemma demo_recover_elem:
  "elem (recover_from_ric demo_env (inv_transform demo_env \<lparr>shape = sh, elem = g\<rparr>) n)
     [0, 0, 3, 5, 2] = 1000 * (g [0, 0, 3, 0] + 1) + 52"
  by (simp add: demo_env_def)

theorem hml_vec_conversion_witness:
  "data_rep demo_env = ''hml_vec'' \<and>
   (\<exists>s' xyz inp.
      sample_once demo_env demo_args1 4 0 (init_loop_state demo_cond) = Inr s' \<and>
      n_joints_var s' = Some 21 \<and> all_motions s' = [xyz] \<and>
      shape xyz = [1, 21, 3, 4] \<and> elem xyz [0, 5, 2, 3] = 4052 \<and>
      convert_input demo_env s' demo_batch = Inr inp \<and>
      shape inp = [1, 21, 3, 4] \<and> elem inp [0, 5, 2, 3] = 4052)"
proof -
  have h: "data_rep demo_env = ''hml_vec''" by (simp add: demo_env_def)
  from demo_sample_once obtain s' where
    so: "sample_once demo_env demo_args1 4 0 (init_loop_state demo_cond) = Inr s'" by blast
  from sample_once_calls [OF so] obtain c where
    cs: "calls s' = calls (init_loop_state demo_cond) @ [c]"
    and os: "out_shape c = (1, 2, 1, 4)"
    by (auto simp: demo_args1_def demo_args_def demo_env_def)
  have sh: "shape (p_sample_loop demo_env 0 c) = [1, 2, 1, 4]"
    using os by (simp add: demo_env_def)
  have el: "\<And>idx. elem (p_sample_loop demo_env 0 c) idx = 10 * int (idx ! 1) + int (idx ! 3)"
    using os by (simp add: demo_env_def)
  note t = hml_vec_conversion [OF h, where a = demo_args1 and max_frames = 4 and rep_i = 0
      and s = "init_loop_state demo_cond" and s' = s' and c = c and b = 1 and j = 2 and f = 1
      and t = 4 and n = 21 and x = demo_batch]
  from t so cs sh demo_recover_shape have nv: "n_joints_var s' = Some 21"
    by simp
  from t so cs sh demo_recover_shape obtain xyz where
    am: "all_motions s' = all_motions (init_loop_state demo_cond) @ [xyz]"
    and sx: "shape xyz = [1, 21, 3, 4]"
    and ex: "\<forall>i k d u. elem xyz [i, k, d, u] =
                elem (recover_from_ric demo_env
                        (inv_transform demo_env
                           \<lparr>shape = [1, 1, 4, 2],
                            elem = (\<lambda>idx. elem (p_sample_loop demo_env 0 c)
                                             [idx ! 0, idx ! 3, idx ! 1, idx ! 2])\<rparr>)
                        21)
                  [i div 1, i mod 1, u, k, d]"
    by auto
  from ex have "elem xyz [0, 5, 2, 3] =
                elem (recover_from_ric demo_env
                        (inv_transform demo_env
                           \<lparr>shape = [1, 1, 4, 2],
                            elem = (\<lambda>idx. elem (p_sample_loop demo_env 0 c)
                                             [idx ! 0, idx ! 3, idx ! 1, idx ! 2])\<rparr>)
                        21)
                  [0, 0, 3, 5, 2]"
    by simp
  then have e1: "elem xyz [0, 5, 2, 3] = 4052"
    unfolding demo_recover_elem by (simp add: el)
  have am': "all_motions s' = [xyz]" using am by (simp add: init_loop_state_def)
  have db: "dim_batch demo_batch = 1" "dim_joints demo_batch = 2" "dim_feats demo_batch = 1"
    "dim_frames demo_batch = 4" "\<And>i j f u. value_at demo_batch i j f u = int (j + u)"
    by (simp_all add: demo_batch_def)
  note t2 = hml_vec_conversion [OF h, where s = s' and n = 21 and x = demo_batch, THEN conjunct2]
  from t2 nv db demo_recover_shape obtain inp where
    ci: "convert_input demo_env s' demo_batch = Inr inp"
    and si: "shape inp = [1, 21, 3, 4]"
    and ei: "\<forall>i k d u. elem inp [i, k, d, u] =
                elem (recover_from_ric demo_env
                        (inv_transform demo_env
                           \<lparr>shape = [1, 1, 4, 2],
                            elem = (\<lambda>idx. value_at demo_batch (idx ! 0) (idx ! 3) (idx ! 1) (idx ! 2))\<rparr>)
                        21)
                  [i div 1, i mod 1, u, k, d]"
    by auto
  from ei have "elem inp [0, 5, 2, 3] =
                elem (recover_from_ric demo_env
                        (inv_transform demo_env
                           \<lparr>shape = [1, 1, 4, 2],
                            elem = (\<lambda>idx. value_at demo_batch (idx ! 0) (idx ! 3) (idx ! 1) (idx ! 2))\<rparr>)
                        21)
                  [0, 0, 3, 5, 2]"
    by simp
  then have e2: "elem inp [0, 5, 2, 3] = 4052"
    unfolding demo_recover_elem by (simp add: db)
  from h so nv am' sx e1 ci si e2 show ?thesis by blast
qed

subsection \<open>The visualizations\<close>

lemma rep_step_effect:
  assumes "rep_step a out_path res gt skel i r (fs, w) = Inr (fs', w')"
  shows "fs' = fs @ [rep_video out_path i r] \<and> commands w' = commands w \<and>
         map save_path (plots w') = map save_path (plots w) @ [rep_video out_path i r] \<and>
         files w' = files w \<and> dirs w' = dirs w \<and> grids w' = grids w"
  using assms
  by (auto simp: rep_step_def rep_video_def Let_def split: sum.splits)

lemma rep_loop_effect:
  assumes "rep_loop a out_path res gt skel i reps (fs, w) = Inr (fs', w')"
  shows "fs' = fs @ map (rep_video out_path i) reps \<and> commands w' = commands w \<and>
         map save_path (plots w') = map save_path (plots w) @ map (rep_video out_path i) reps \<and>
         files w' = files w \<and> dirs w' = dirs w \<and> grids w' = grids w"
  using assms
proof (induction reps arbitrary: fs w)
  case Nil
  then show ?case by simp
next
  case (Cons r reps)
  from Cons.prems obtain fs1 w1 where
    1: "rep_step a out_path res gt skel i r (fs, w) = Inr (fs1, w1)"
    and 2: "rep_loop a out_path res gt skel i reps (fs1, w1) = Inr (fs', w')"
    by (auto split: sum.splits)
  from rep_step_effect [OF 1] Cons.IH [OF 2] show ?case by simp
qed

lemma sample_step_effect:
  assumes "sample_step e a out_path xs lens res gt skel i w = Inr w'"
  shows "commands w' = commands w @ [spec_command out_path (num_repetitions a) i] \<and>
         map save_path (plots w') =
           map save_path (plots w) @ map (rep_video out_path i) [0..<nat (num_repetitions a)] \<and>
         files w' = files w \<and> dirs w' = dirs w \<and> grids w' = grids w"
proof -
  from assms obtain fs' w1 where
    l: "rep_loop a out_path res gt skel i [0..<nat (num_repetitions a)]
          ([input_video out_path i], w) = Inr (fs', w1)"
    and w': "w' = w1\<lparr>commands := commands w1 @
                [ffmpeg_rep_cmd a fs' (stacked_video out_path i)]\<rparr>"
    by (auto simp: sample_step_def input_video_def stacked_video_def Let_def
        split: sum.splits prod.splits)
  from rep_loop_effect [OF l] w' show ?thesis
    by (simp add: ffmpeg_rep_cmd_def spec_command_def Let_def)
qed

lemma sample_loop_effect:
  assumes "sample_loop e a out_path xs lens res gt skel is w = Inr w'"
  shows "commands w' = commands w @ map (spec_command out_path (num_repetitions a)) is \<and>
         map save_path (plots w') =
           map save_path (plots w)
             @ concat (map (\<lambda>i. map (rep_video out_path i) [0..<nat (num_repetitions a)]) is) \<and>
         files w' = files w \<and> dirs w' = dirs w \<and> grids w' = grids w"
  using assms
proof (induction "is" arbitrary: w)
  case Nil
  then show ?case by simp
next
  case (Cons i "is")
  from Cons.prems obtain w1 where
    1: "sample_step e a out_path xs lens res gt skel i w = Inr w1"
    and 2: "sample_loop e a out_path xs lens res gt skel is w1 = Inr w'"
    by (auto split: sum.splits)
  from sample_step_effect [OF 1] Cons.IH [OF 2] show ?case by simp
qed

lemma visualize_effect:
  assumes "visualize e a out_path x gt res s w = Inr w'"
  shows "commands w' =
           commands w @ map (spec_command out_path (num_repetitions a)) [0..<nat (num_samples a)] \<and>
         map save_path (plots w') =
           map save_path (plots w)
             @ concat (map (\<lambda>i. map (rep_video out_path i) [0..<nat (num_repetitions a)])
                          [0..<nat (num_samples a)]) \<and>
         files w' = files w \<and> dirs w' = dirs w \<and>
         0 \<le> num_repetitions a \<and> 0 \<le> num_samples a"
proof -
  from assms obtain xs w1 where
    l: "sample_loop e a out_path xs (y_lengths (kwargs s)) res gt
          (if dataset a = ''kit'' then kit_kinematic_chain else t2m_kinematic_chain)
          [0..<nat (num_samples a)] w = Inr w1"
    and w': "w' = w1\<lparr>grids := grids w1 @
               [(out_path, all_file_template e, fps,
                 Max (set (r_lengths res @ [int (dim_frames x)])))]\<rparr>"
    and nn: "0 \<le> num_repetitions a" "0 \<le> num_samples a"
    by (auto simp: visualize_def Let_def split: sum.splits if_splits)
  from sample_loop_effect [OF l] w' nn show ?thesis by simp
qed

lemma write_file_effect:
  "write_file w p c = Inr w' \<Longrightarrow>
   commands w' = commands w \<and> plots w' = plots w \<and> dirs w' = dirs w \<and>
   files w' = (files w)(p \<mapsto> c)"
  by (auto simp: write_file_def split: if_splits)

lemma prepare_out_dir_log:
  "prepare_out_dir out_path w = Inr w' \<Longrightarrow> commands w' = commands w \<and> plots w' = plots w"
  by (auto simp: prepare_out_dir_def rmtree_def makedirs_def split: if_splits sum.splits)

lemma write_results_log:
  assumes "write_results out_path res w = Inr w'"
  shows "commands w' = commands w \<and> plots w' = plots w"
proof -
  from assms obtain w1 w2 where
    "write_file w (path_join out_path ''results.npy'') (Npy res) = Inr w1"
    "write_file w1 (py_replace ''.npy'' ''.txt'' (path_join out_path ''results.npy''))
       (Text (join_lines (r_text res))) = Inr w2"
    "write_file w2 (py_replace ''.npy'' ''_len.txt'' (path_join out_path ''results.npy''))
       (Text (join_lines (map str_int (r_lengths res)))) = Inr w'"
    by (auto simp: write_results_def Let_def split: sum.splits)
  then show ?thesis by (auto dest!: write_file_effect)
qed

lemma save_results_log:
  assumes "save_results a out_path s w = Inr (res, w')"
  shows "commands w' = commands w \<and> plots w' = plots w"
proof -
  from assms obtain w1 where
    "prepare_out_dir out_path w = Inr w1" "write_results out_path res w1 = Inr w'"
    by (auto simp: save_results_def split: sum.splits)
  then show ?thesis by (auto dest!: prepare_out_dir_log write_results_log)
qed

lemma main_phases:
  assumes "main e a x lens w = Inr (s, w')"
  shows "\<exists>a' gt res w1.
           num_samples a' = num_samples a \<and> num_repetitions a' = num_repetitions a \<and>
           save_results a' (resolve_out_path a) s w = Inr (res, w1) \<and>
           visualize e a' (resolve_out_path a) x gt res s w1 = Inr w'"
proof -
  from assms obtain a1 where c: "check_batch a = Inr a1"
    by (cases "check_batch a") (simp_all add: main_def Let_def)
  then have a1: "a1 = a\<lparr>batch_size := num_samples a\<rparr>"
    by (auto simp: check_batch_def split: if_splits)
  define a2 where "a2 = (if text_condition a1 = [] then a1\<lparr>guidance_param := 0\<rparr> else a1)"
  have b: "num_samples a2 = num_samples a" "num_repetitions a2 = num_repetitions a"
    by (simp_all add: a2_def a1)
  from assms c obtain gt res w1 where
    "save_results a2 (resolve_out_path a) s w = Inr (res, w1)"
    "visualize e a2 (resolve_out_path a) x gt res s w1 = Inr w'"
    unfolding main_def Let_def a2_def
    by (auto split: sum.splits prod.splits)
  with b show ?thesis by blast
qed

lemma path_join_inject:
  assumes "path_join d b = path_join d c" and "\<not> starts_with b ''/''" and "\<not> starts_with c ''/''"
  shows "b = c"
  using assms by (auto simp: path_join_def split: if_splits)

lemma input_video_not_rep_video: "input_video out_path i \<noteq> rep_video out_path k r"
proof
  assume "input_video out_path i = rep_video out_path k r"
  then have "''input_motion'' @ fmt02 (int i) @ ''.mp4''
           = ''sample'' @ fmt02 (int k) @ ''_rep'' @ fmt02 (int r) @ ''.mp4''"
    unfolding input_video_def rep_video_def
    by (rule path_join_inject) (simp_all add: starts_with_def)
  then show False by simp
qed

text \<open>
  Claim C8. In a run that reaches its end, \<open>os.system\<close> is called once for every
  sample index, in order, with the \<open>ffmpeg\<close> command that stacks
  \<open>num_repetitions + 1\<close> inputs into \<open>sample{i:02d}.mp4\<close>; the first input is
  \<open>input_motion{i:02d}.mp4\<close>, and no call of \<open>plot_3d_motion\<close> of the run has that path
  as its target.
\<close>

theorem one_ffmpeg_command_per_sample:
  assumes "main e a x lens w = Inr (s, w')"
  shows "commands w' =
           commands w @ map (spec_command (resolve_out_path a) (num_repetitions a))
                          [0..<nat (num_samples a)] \<and>
         int (length (commands w')) = int (length (commands w)) + num_samples a \<and>
         (\<forall>i. int (length (input_video (resolve_out_path a) i
                   # map (rep_video (resolve_out_path a) i) [0..<nat (num_repetitions a)]))
                = num_repetitions a + 1) \<and>
         (\<forall>i. \<forall>p\<in>set (drop (length (plots w)) (plots w')).
            save_path p \<noteq> input_video (resolve_out_path a) i)"
proof -
  define out_path where "out_path = resolve_out_path a"
  from main_phases [OF assms] obtain a' gt res w1 where
    n: "num_samples a' = num_samples a" "num_repetitions a' = num_repetitions a"
    and sv: "save_results a' out_path s w = Inr (res, w1)"
    and vs: "visualize e a' out_path x gt res s w1 = Inr w'"
    unfolding out_path_def by blast
  from save_results_log [OF sv] have w1: "commands w1 = commands w" "plots w1 = plots w"
    by simp_all
  from visualize_effect [OF vs] n w1 have
    c: "commands w' = commands w @ map (spec_command out_path (num_repetitions a))
                          [0..<nat (num_samples a)]"
    and p: "map save_path (plots w') =
           map save_path (plots w)
             @ concat (map (\<lambda>i. map (rep_video out_path i) [0..<nat (num_repetitions a)])
                          [0..<nat (num_samples a)])"
    and nn: "0 \<le> num_repetitions a" "0 \<le> num_samples a"
    by simp_all
  have l: "int (length (commands w')) = int (length (commands w)) + num_samples a"
    using c nn by simp
  have k: "\<forall>i. int (length (input_video out_path i
                   # map (rep_video out_path i) [0..<nat (num_repetitions a)]))
                = num_repetitions a + 1"
    using nn by simp
  have "\<forall>i. \<forall>p\<in>set (drop (length (plots w)) (plots w')).
            save_path p \<noteq> input_video out_path i"
  proof (intro allI ballI)
    fix i p assume "p \<in> set (drop (length (plots w)) (plots w'))"
    then have "save_path p \<in> set (map save_path (drop (length (plots w)) (plots w')))"
      by simp
    also have "map save_path (drop (length (plots w)) (plots w'))
             = drop (length (plots w)) (map save_path (plots w'))"
      by (simp add: drop_map)
    also have "\<dots> = concat (map (\<lambda>i. map (rep_video out_path i) [0..<nat (num_repetitions a)])
                          [0..<nat (num_samples a)])"
      by (simp add: p)
    finally obtain k r where "save_path p = rep_video out_path k r" by auto
    then show "save_path p \<noteq> input_video out_path i"
      using input_video_not_rep_video [of out_path i k r] by simp
  qed
  with c l k show ?thesis unfolding out_path_def by blast
qed

lemma demo_main_commands:
  "(case main demo_env demo_args demo_batch [4] demo_world of
      Inl err \<Rightarrow> []
    | Inr (s, w) \<Rightarrow> commands w) =
   [''ffmpeg -y -loglevel warning  -i ./save/humanml_trans_enc_512/edit_humanml_trans_enc_512_000200000_in_between_seed10_a_person_walks_fast/input_motion00.mp4  -i ./save/humanml_trans_enc_512/edit_humanml_trans_enc_512_000200000_in_between_seed10_a_person_walks_fast/sample00_rep00.mp4  -i ./save/humanml_trans_enc_512/edit_humanml_trans_enc_512_000200000_in_between_seed10_a_person_walks_fast/sample00_rep01.mp4  -filter_complex hstack=inputs=3 ./save/humanml_trans_enc_512/edit_humanml_trans_enc_512_000200000_in_between_seed10_a_person_walks_fast/sample00.mp4'']"
  by code_simp

theorem one_ffmpeg_command_per_sample_witness:
  "\<exists>s w'. main demo_env demo_args demo_batch [4] demo_world = Inr (s, w') \<and>
     commands w' = [spec_command (resolve_out_path demo_args) 2 0] \<and>
     commands w' =
       [''ffmpeg -y -loglevel warning  -i ./save/humanml_trans_enc_512/edit_humanml_trans_enc_512_000200000_in_between_seed10_a_person_walks_fast/input_motion00.mp4  -i ./save/humanml_trans_enc_512/edit_humanml_trans_enc_512_000200000_in_between_seed10_a_person_walks_fast/sample00_rep00.mp4  -i ./save/humanml_trans_enc_512/edit_humanml_trans_enc_512_000200000_in_between_seed10_a_person_walks_fast/sample00_rep01.mp4  -filter_complex hstack=inputs=3 ./save/humanml_trans_enc_512/edit_humanml_trans_enc_512_000200000_in_between_seed10_a_person_walks_fast/sample00.mp4'']"
proof -
  from demo_main_runs obtain s w' where
    m: "main demo_env demo_args demo_batch [4] demo_world = Inr (s, w')"
    by (cases "main demo_env demo_args demo_batch [4] demo_world") auto
  from one_ffmpeg_command_per_sample [OF m]
  have "commands w' = commands demo_world
          @ map (spec_command (resolve_out_path demo_args) (num_repetitions demo_args))
              [0..<nat (num_samples demo_args)]"
    by blast
  then have 1: "commands w' = [spec_command (resolve_out_path demo_args) 2 0]"
    by (simp add: demo_world_def demo_args_def)
  from demo_main_commands m have 2: "commands w' =
       [''ffmpeg -y -loglevel warning  -i ./save/humanml_trans_enc_512/edit_humanml_trans_enc_512_000200000_in_between_seed10_a_person_walks_fast/input_motion00.mp4  -i ./save/humanml_trans_enc_512/edit_humanml_trans_enc_512_000200000_in_between_seed10_a_person_walks_fast/sample00_rep00.mp4  -i ./save/humanml_trans_enc_512/edit_humanml_trans_enc_512_000200000_in_between_seed10_a_person_walks_fast/sample00_rep01.mp4  -filter_complex hstack=inputs=3 ./save/humanml_trans_enc_512/edit_humanml_trans_enc_512_000200000_in_between_seed10_a_person_walks_fast/sample00.mp4'']"
    by simp
  from m 1 2 show ?thesis by blast
qed

subsection \<open>Saving the results\<close>

lemma only_at_end_Cons:
  "only_at_end old (c # q) = (\<not> starts_with (c # q @ old) old \<and> only_at_end old q)"
proof -
  have "[0..<length (c # q)] = 0 # map Suc [0..<length q]"
    by (simp add: upt_conv_Cons map_Suc_upt del: upt_Suc)
  then have "only_at_end old (c # q) =
      list_all (\<lambda>k. \<not> starts_with (drop k ((c # q) @ old)) old) (0 # map Suc [0..<length q])"
    by (simp only: only_at_end_def)
  then show ?thesis
    by (simp add: list.pred_map comp_def only_at_end_def)
qed

lemma py_replace_only_at_end:
  assumes "old \<noteq> []" and "only_at_end old q"
  shows "py_replace old new (q @ old) = q @ new"
  using assms(2)
proof (induction q)
  case Nil
  have "py_replace old new old = new @ py_replace old new []"
    using assms(1) by (subst py_replace.simps) (simp add: starts_with_def)
  also have "py_replace old new [] = []"
    by (subst py_replace.simps) simp
  finally show ?case by simp
next
  case (Cons c q)
  then have n: "\<not> starts_with (c # q @ old) old" and r: "only_at_end old q"
    by (simp_all add: only_at_end_Cons)
  have "py_replace old new ((c # q) @ old) = c # py_replace old new (q @ old)"
    using assms(1) n by (subst py_replace.simps) simp
  with Cons.IH [OF r] show ?case by simp
qed

lemma path_join_append:
  "\<not> starts_with (b @ c) ''/'' \<Longrightarrow> path_join d (b @ c) = path_join d b @ c"
  by (cases b) (auto simp: path_join_def starts_with_def)

lemma results_paths:
  assumes "only_at_end ''.npy'' (path_join out_path ''results'')"
  shows "path_join out_path ''results.npy'' = path_join out_path ''results'' @ ''.npy''"
    and "py_replace ''.npy'' ''.txt'' (path_join out_path ''results.npy'')
           = path_join out_path ''results.txt''"
    and "py_replace ''.npy'' ''_len.txt'' (path_join out_path ''results.npy'')
           = path_join out_path ''results_len.txt''"
proof -
  show 1: "path_join out_path ''results.npy'' = path_join out_path ''results'' @ ''.npy''"
    using path_join_append [of "''results''" "''.npy''" out_path]
    by (simp add: starts_with_def)
  have 2: "path_join out_path ''results.txt'' = path_join out_path ''results'' @ ''.txt''"
    using path_join_append [of "''results''" "''.txt''" out_path]
    by (simp add: starts_with_def)
  have 3: "path_join out_path ''results_len.txt'' = path_join out_path ''results'' @ ''_len.txt''"
    using path_join_append [of "''results''" "''_len.txt''" out_path]
    by (simp add: starts_with_def)
  show "py_replace ''.npy'' ''.txt'' (path_join out_path ''results.npy'')
           = path_join out_path ''results.txt''"
    unfolding 1 2 using assms by (intro py_replace_only_at_end) simp_all
  show "py_replace ''.npy'' ''_len.txt'' (path_join out_path ''results.npy'')
           = path_join out_path ''results_len.txt''"
    unfolding 1 3 using assms by (intro py_replace_only_at_end) simp_all
qed

lemma write_results_files:
  assumes "write_results out_path res w = Inr w'"
    and "only_at_end ''.npy'' (path_join out_path ''results'')"
  shows "files w' =
           (files w)(path_join out_path ''results.npy'' \<mapsto> Npy res,
                     path_join out_path ''results.txt'' \<mapsto> Text (join_lines (r_text res)),
                     path_join out_path ''results_len.txt'' \<mapsto>
                       Text (join_lines (map str_int (r_lengths res))))"
    and "dirs w' = dirs w"
proof -
  from assms(1) obtain w1 w2 where
    1: "write_file w (path_join out_path ''results.npy'') (Npy res) = Inr w1"
    and 2: "write_file w1 (py_replace ''.npy'' ''.txt'' (path_join out_path ''results.npy''))
       (Text (join_lines (r_text res))) = Inr w2"
    and 3: "write_file w2 (py_replace ''.npy'' ''_len.txt'' (path_join out_path ''results.npy''))
       (Text (join_lines (map str_int (r_lengths res)))) = Inr w'"
    by (auto simp: write_results_def Let_def split: sum.splits)
  note p = results_paths [OF assms(2)]
  from 1 have f1: "files w1 = (files w)(path_join out_path ''results.npy'' \<mapsto> Npy res)"
    and d1: "dirs w1 = dirs w"
    by (auto simp: write_file_def split: if_splits)
  from 2 have f2: "files w2 = (files w1)(path_join out_path ''results.txt''
                      \<mapsto> Text (join_lines (r_text res)))"
    and d2: "dirs w2 = dirs w1"
    unfolding p(2) by (auto simp: write_file_def split: if_splits)
  from 3 have f3: "files w' = (files w2)(path_join out_path ''results_len.txt''
                      \<mapsto> Text (join_lines (map str_int (r_lengths res))))"
    and d3: "dirs w' = dirs w2"
    unfolding p(3) by (auto simp: write_file_def split: if_splits)
  show "files w' =
           (files w)(path_join out_path ''results.npy'' \<mapsto> Npy res,
                     path_join out_path ''results.txt'' \<mapsto> Text (join_lines (r_text res)),
                     path_join out_path ''results_len.txt'' \<mapsto>
                       Text (join_lines (map str_int (r_lengths res))))"
    by (simp add: f1 f2 f3)
  show "dirs w' = dirs w" by (simp add: d1 d2 d3)
qed

lemma three_results_paths_distinct:
  "path_join d ''results.npy'' \<noteq> path_join d ''results.txt''"
  "path_join d ''results.npy'' \<noteq> path_join d ''results_len.txt''"
  "path_join d ''results.txt'' \<noteq> path_join d ''results_len.txt''"
  by (auto simp: path_join_def starts_with_def)

lemma collect_results_content:
  assumes "collect_results a s = Inr res"
  shows "\<exists>m. np_concatenate (all_motions s) = Inr m \<and>
           r_motion res = tensor_prefix (num_samples a * num_repetitions a) m \<and>
           r_text res = py_prefix (num_samples a * num_repetitions a) (all_text s) \<and>
           r_lengths res = py_prefix (num_samples a * num_repetitions a) (concat (all_lengths s)) \<and>
           r_num_samples res = num_samples a \<and> r_num_repetitions res = num_repetitions a"
  using assms by (auto simp: collect_results_def Let_def split: sum.splits if_splits)

lemma py_prefix_take: "0 \<le> n \<Longrightarrow> py_prefix n xs = take (nat n) xs"
  by (auto simp: py_prefix_def slice_bound_def min_def)

lemma inside_ancestor:
  assumes "d \<noteq> []" and "inside d q"
  shows "d \<in> set (ancestors q)"
proof -
  from assms(2) have t: "take (length d + 1) q = d @ ''/''"
    by (simp add: inside_def starts_with_def)
  then have "length (take (length d + 1) q) = length d + 1" by simp
  then have l: "length d < length q" by simp
  from t have "take (length d + 1) q ! length d = (d @ ''/'') ! length d" by simp
  then have c: "q ! length d = CHR ''/''" by simp
  from t have "take (length d) (take (length d + 1) q) = take (length d) (d @ ''/'')" by simp
  then have td: "take (length d) q = d" by simp
  have "length d \<in> set (filter (\<lambda>k. q ! k = CHR ''/'') [1..<length q])"
    using l c assms(1) by (cases d) auto
  then have "take (length d) q \<in> (\<lambda>k. take k q) ` set (filter (\<lambda>k. q ! k = CHR ''/'') [1..<length q])"
    by (rule imageI)
  then have "take (length d) q \<in> set (ancestors q)"
    by (simp only: ancestors_def set_map)
  with td show ?thesis by simp
qed

lemma ancestor_shorter: "d \<in> set (ancestors p) \<Longrightarrow> length d < length p"
  by (auto simp: ancestors_def)

lemma inside_longer: "inside d q \<Longrightarrow> length d < length q"
proof -
  assume "inside d q"
  then have "length (take (length (d @ ''/'')) q) = length (d @ ''/'')"
    by (simp add: inside_def starts_with_def)
  then show ?thesis by simp
qed

lemma prepare_out_dir_fresh:
  assumes wf: "wf_world w" and ne: "out_path \<noteq> []"
    and ok: "prepare_out_dir out_path w = Inr w'"
  shows "out_path \<in> dirs w' \<and>
         (\<forall>q. inside out_path q \<longrightarrow> files w' q = None \<and> q \<notin> dirs w') \<and>
         (\<forall>q. \<not> inside out_path q \<longrightarrow> files w' q = files w q)"
proof -
  have anc: "\<And>q. inside out_path q \<Longrightarrow> q \<notin> set (ancestors out_path) \<and> q \<noteq> out_path"
    using ancestor_shorter inside_longer by fastforce
  show ?thesis
  proof (cases "path_exists w out_path")
    case True
    with ok obtain w1 where r: "rmtree w out_path = Inr w1" and m: "makedirs w1 out_path = Inr w'"
      by (auto simp: prepare_out_dir_def split: sum.splits)
    from r have w1: "dirs w1 = {d \<in> dirs w. d \<noteq> out_path \<and> \<not> inside out_path d}"
      "files w1 = (\<lambda>q. if inside out_path q then None else files w q)"
      by (auto simp: rmtree_def split: if_splits)
    from m have w': "dirs w' = dirs w1 \<union> {out_path} \<union> set (ancestors out_path)"
      "files w' = files w1"
      by (auto simp: makedirs_def split: if_splits)
    show ?thesis using w1 w' anc by auto
  next
    case False
    with ok have m: "makedirs w out_path = Inr w'"
      by (simp add: prepare_out_dir_def)
    then have w': "dirs w' = dirs w \<union> {out_path} \<union> set (ancestors out_path)"
      "files w' = files w"
      by (auto simp: makedirs_def split: if_splits)
    have none: "\<And>q. inside out_path q \<Longrightarrow> \<not> path_exists w q"
    proof
      fix q assume i: "inside out_path q" and "path_exists w q"
      with wf have "set (ancestors q) \<subseteq> dirs w" by (simp add: wf_world_def)
      with inside_ancestor [OF ne i] have "out_path \<in> dirs w" by blast
      with False show False by (simp add: path_exists_def)
    qed
    show ?thesis using w' anc none by (auto simp: path_exists_def)
  qed
qed

lemma results_paths_inside:
  assumes "out_path \<noteq> []" and "last out_path \<noteq> CHR ''/''"
  shows "inside out_path (path_join out_path ''results.npy'')"
    and "inside out_path (path_join out_path ''results.txt'')"
    and "inside out_path (path_join out_path ''results_len.txt'')"
  using assms by (simp_all add: inside_def path_join_def starts_with_def)

lemma save_results_files:
  assumes sv: "save_results a out_path s w = Inr (res, w')"
    and oe: "only_at_end ''.npy'' (path_join out_path ''results'')"
    and wf: "wf_world w" and ne: "out_path \<noteq> []"
  shows "files w' =
           (\<lambda>q. if inside out_path q then None else files w q)
             (path_join out_path ''results.npy'' \<mapsto> Npy res,
              path_join out_path ''results.txt'' \<mapsto> Text (join_lines (r_text res)),
              path_join out_path ''results_len.txt'' \<mapsto>
                Text (join_lines (map str_int (r_lengths res))))"
    and "out_path \<in> dirs w'"
    and "collect_results a s = Inr res"
proof -
  from sv obtain w1 where
    c: "collect_results a s = Inr res"
    and p: "prepare_out_dir out_path w = Inr w1"
    and wr: "write_results out_path res w1 = Inr w'"
    by (auto simp: save_results_def split: sum.splits)
  from prepare_out_dir_fresh [OF wf ne p]
  have f1: "files w1 = (\<lambda>q. if inside out_path q then None else files w q)"
    and d1: "out_path \<in> dirs w1"
    by auto
  from write_results_files [OF wr oe] f1 d1
  show "files w' =
           (\<lambda>q. if inside out_path q then None else files w q)
             (path_join out_path ''results.npy'' \<mapsto> Npy res,
              path_join out_path ''results.txt'' \<mapsto> Text (join_lines (r_text res)),
              path_join out_path ''results_len.txt'' \<mapsto>
                Text (join_lines (map str_int (r_lengths res))))"
    and "out_path \<in> dirs w'"
    by simp_all
  show "collect_results a s = Inr res" by (rule c)
qed

lemma npy_out_path:
  "resolve_out_path npy_args =
     ''out.npy/edit_humanml_trans_enc_512_000200000_in_between_seed10_a_person_walks_fast''"
  by code_simp

lemma npy_txt_path:
  "py_replace ''.npy'' ''.txt'' (path_join (resolve_out_path npy_args) ''results.npy'') =
     ''out.txt/edit_humanml_trans_enc_512_000200000_in_between_seed10_a_person_walks_fast/results.txt''"
  by code_simp

lemma npy_main_error:
  "(case main demo_env npy_args demo_batch [4] demo_world of
      Inl err \<Rightarrow> Some err
    | Inr r \<Rightarrow> None) = Some FileNotFoundError"
  by code_simp

lemma npy_main_text:
  "(case main demo_env npy_args demo_batch [4] npy_world of
      Inl err \<Rightarrow> []
    | Inr (s, w) \<Rightarrow>
        (case files w ''out.txt/edit_humanml_trans_enc_512_000200000_in_between_seed10_a_person_walks_fast/results.txt'' of
           Some (Text t) \<Rightarrow> t
         | _ \<Rightarrow> [])) = ''a person walks. fast'' @ [CHR 0x0A] @ ''a person walks. fast''"
  by code_simp

lemma npy_txt_outside:
  "\<not> inside (resolve_out_path npy_args)
       ''out.txt/edit_humanml_trans_enc_512_000200000_in_between_seed10_a_person_walks_fast/results.txt''"
  by code_simp

text \<open>
  Claim C5 at an output directory named \<open>out.npy\<close>: line 170 replaces the \<open>.npy\<close> of the
  directory too, the path of the text file lies in a directory \<open>out.txt\<close> that does not
  exist, and the run ends in \<open>FileNotFoundError\<close> with \<open>results.npy\<close> written alone.
\<close>

theorem results_txt_not_written_beside_results_npy:
  "resolve_out_path npy_args =
     ''out.npy/edit_humanml_trans_enc_512_000200000_in_between_seed10_a_person_walks_fast'' \<and>
   py_replace ''.npy'' ''.txt'' (path_join (resolve_out_path npy_args) ''results.npy'') =
     ''out.txt/edit_humanml_trans_enc_512_000200000_in_between_seed10_a_person_walks_fast/results.txt'' \<and>
   main demo_env npy_args demo_batch [4] demo_world = Inl FileNotFoundError"
proof -
  from npy_main_error have "main demo_env npy_args demo_batch [4] demo_world = Inl FileNotFoundError"
    by (cases "main demo_env npy_args demo_batch [4] demo_world") auto
  with npy_out_path npy_txt_path show ?thesis by simp
qed

text \<open>
  Claim C10 at the same output directory, when the directories that the replaced paths
  name exist: the run reaches its end and \<open>results.txt\<close> is a new file outside the output
  directory.
\<close>

theorem results_txt_written_outside_out_path:
  "(\<exists>s w. main demo_env npy_args demo_batch [4] npy_world = Inr (s, w) \<and>
      files w ''out.txt/edit_humanml_trans_enc_512_000200000_in_between_seed10_a_person_walks_fast/results.txt''
        = Some (Text (''a person walks. fast'' @ [CHR 0x0A] @ ''a person walks. fast''))) \<and>
   \<not> inside (resolve_out_path npy_args)
       ''out.txt/edit_humanml_trans_enc_512_000200000_in_between_seed10_a_person_walks_fast/results.txt'' \<and>
   files npy_world
       ''out.txt/edit_humanml_trans_enc_512_000200000_in_between_seed10_a_person_walks_fast/results.txt'' = None"
proof -
  let ?p = "''out.txt/edit_humanml_trans_enc_512_000200000_in_between_seed10_a_person_walks_fast/results.txt''"
  from npy_main_text obtain s w where
    m: "main demo_env npy_args demo_batch [4] npy_world = Inr (s, w)"
    by (cases "main demo_env npy_args demo_batch [4] npy_world") auto
  with npy_main_text have "(case files w ?p of Some (Text t) \<Rightarrow> t | _ \<Rightarrow> [])
      = ''a person walks. fast'' @ [CHR 0x0A] @ ''a person walks. fast''"
    by simp
  then have "files w ?p = Some (Text (''a person walks. fast'' @ [CHR 0x0A] @ ''a person walks. fast''))"
    by (auto split: option.splits file_content.splits)
  moreover have "files npy_world ?p = None" by (simp add: npy_world_def)
  ultimately show ?thesis using m npy_txt_outside by blast
qed

subsection \<open>The repetitions run to their end\<close>

lemma sample_once_completes:
  assumes "0 \<le> batch_size a"
    and "data_rep e = ''hml_vec'' \<Longrightarrow> 0 < max_frames \<and> well_shaped e max_frames"
  shows "\<exists>s'. sample_once e a max_frames rep_i s = Inr s'"
proof (cases "data_rep e = ''hml_vec''")
  case False
  with assms(1) show ?thesis by (simp add: sample_once_def Let_def)
next
  case True
  with assms(2) have pos: "0 < max_frames" and ws: "well_shaped e max_frames" by simp_all
  define kw where "kw = (kwargs s)\<lparr>y_scale := Some (replicate (nat (batch_size a)) (guidance_param a))\<rparr>"
  define c where "c = \<lparr>out_shape = (batch_size a, njoints e, nfeats e, max_frames),
                    clip_denoised = False, model_kwargs = kw, skip_timesteps = 0,
                    init_image = None, progress = True, dump_steps = None,
                    noise = None, const_noise = False\<rparr>"
  have m: "snd (snd (snd (out_shape c))) = max_frames" by (simp add: c_def)
  have conv: "\<exists>xyz. to_xyz e n (p_sample_loop e rep_i c) = Inr xyz" if n: "0 < n" for n
  proof -
    from ws n m obtain b j f where
      sh: "shape (p_sample_loop e rep_i c) = [b, j, f, max_frames]"
      and rr: "shape (recover_from_ric e
                      (inv_transform e (permute [0, 2, 3, 1] (p_sample_loop e rep_i c))) n)
               = [b, f, max_frames, n, 3]"
      unfolding well_shaped_def by blast
    from to_xyz_shape [OF sh rr pos n] show ?thesis by blast
  qed
  from conv [of 22] obtain x22 where x22: "to_xyz e 22 (p_sample_loop e rep_i c) = Inr x22"
    by auto
  from conv [of 21] obtain x21 where x21: "to_xyz e 21 (p_sample_loop e rep_i c) = Inr x21"
    by auto
  from ws m obtain b j f where sh: "shape (p_sample_loop e rep_i c) = [b, j, f, max_frames]"
    unfolding well_shaped_def by (metis zero_less_one)
  show ?thesis
    using assms(1) True sh x22 x21
    by (simp add: sample_once_def Let_def kw_def [symmetric] c_def [symmetric])
qed

lemma sampling_loop_completes:
  assumes "0 \<le> batch_size a"
    and "data_rep e = ''hml_vec'' \<Longrightarrow> 0 < max_frames \<and> well_shaped e max_frames"
  shows "\<exists>s'. sampling_loop e a max_frames reps s = Inr s'"
proof (induction reps arbitrary: s)
  case Nil
  show ?case by simp
next
  case (Cons rep_i reps)
  from sample_once_completes [OF assms, of rep_i s] obtain s1 where
    "sample_once e a max_frames rep_i s = Inr s1" by blast
  with Cons.IH [of s1] show ?case by simp
qed

end
